theory Spec2Isabelle
  imports Main "HOL-Library.Sublist"
begin

section \<open>JavaScript strings\<close>

text \<open>
  A JavaScript string is modelled as a \<open>string\<close> holding its UTF-8 bytes. The operations
  the sources use are \<open>includes\<close> (here \<open>js_includes\<close>), \<open>startsWith\<close>, \<open>trim\<close> and a global
  \<open>replace\<close> that deletes the two quote characters.
\<close>

fun js_includes :: "string \<Rightarrow> string \<Rightarrow> bool" where
  "js_includes [] n = (n = [])"
| "js_includes (c # cs) n = (prefix n (c # cs) \<or> js_includes cs n)"

definition startsWith :: "string \<Rightarrow> string \<Rightarrow> bool" where
  "startsWith s p = prefix p s"

text \<open>
  The code points that \<open>String.prototype.trim\<close> removes (ECMAScript WhiteSpace and
  LineTerminator), each as its UTF-8 byte sequence.
\<close>

definition whiteSpace :: "string list" where
  "whiteSpace =
    [[CHR 0x09], [CHR 0x0A], [CHR 0x0B], [CHR 0x0C], [CHR 0x0D], [CHR 0x20],
     [CHR 0xC2, CHR 0xA0],
     [CHR 0xE1, CHR 0x9A, CHR 0x80],
     [CHR 0xE2, CHR 0x80, CHR 0x80], [CHR 0xE2, CHR 0x80, CHR 0x81],
     [CHR 0xE2, CHR 0x80, CHR 0x82], [CHR 0xE2, CHR 0x80, CHR 0x83],
     [CHR 0xE2, CHR 0x80, CHR 0x84], [CHR 0xE2, CHR 0x80, CHR 0x85],
     [CHR 0xE2, CHR 0x80, CHR 0x86], [CHR 0xE2, CHR 0x80, CHR 0x87],
     [CHR 0xE2, CHR 0x80, CHR 0x88], [CHR 0xE2, CHR 0x80, CHR 0x89],
     [CHR 0xE2, CHR 0x80, CHR 0x8A],
     [CHR 0xE2, CHR 0x80, CHR 0xA8], [CHR 0xE2, CHR 0x80, CHR 0xA9],
     [CHR 0xE2, CHR 0x80, CHR 0xAF],
     [CHR 0xE2, CHR 0x81, CHR 0x9F],
     [CHR 0xE3, CHR 0x80, CHR 0x80],
     [CHR 0xEF, CHR 0xBB, CHR 0xBF]]"

function stripLeading :: "string list \<Rightarrow> string \<Rightarrow> string" where
  "stripLeading ws s =
     (case find (\<lambda>w. w \<noteq> [] \<and> prefix w s) ws of
        None \<Rightarrow> s
      | Some w \<Rightarrow> stripLeading ws (drop (length w) s))"
  by pat_completeness auto
termination
proof (relation "measure (\<lambda>(ws, s). length s)")
  show "wf (measure (\<lambda>(ws, s). length s))" by simp
next
  fix ws :: "string list" and s w :: string
  assume "find (\<lambda>w. w \<noteq> [] \<and> prefix w s) ws = Some w"
  then have "w \<noteq> []" and "prefix w s"
    by (auto simp: find_Some_iff)
  then have "length (drop (length w) s) < length s"
    by (cases s) (auto simp: prefix_def)
  then show "((ws, drop (length w) s), (ws, s)) \<in> measure (\<lambda>(ws, s). length s)"
    by simp
qed

declare stripLeading.simps [simp del]

definition trimStart :: "string \<Rightarrow> string" where
  "trimStart s = stripLeading whiteSpace s"

definition trimEnd :: "string \<Rightarrow> string" where
  "trimEnd s = rev (stripLeading (map rev whiteSpace) (rev s))"

definition trim :: "string \<Rightarrow> string" where
  "trim s = trimEnd (trimStart s)"

definition isQuote :: "char \<Rightarrow> bool" where
  "isQuote c = (c = CHR 0x27 \<or> c = CHR 0x22)"

text \<open>The white space of ASCII: tab, line feed, vertical tab, form feed, carriage return, space.\<close>

definition asciiWhiteSpace :: "char set" where
  "asciiWhiteSpace = {CHR 0x09, CHR 0x0A, CHR 0x0B, CHR 0x0C, CHR 0x0D, CHR 0x20}"

section \<open>Paths\<close>

text \<open>
  \<open>path.join\<close> of Node's POSIX implementation: the non-empty arguments are joined with
  \<open>/\<close> and the result is normalised (empty and \<open>.\<close> segments dropped, \<open>..\<close>
  resolved against the segment before it, a leading and a trailing slash kept).
\<close>

type_synonym path = string

fun splitOn :: "char \<Rightarrow> string \<Rightarrow> string list" where
  "splitOn d [] = [[]]"
| "splitOn d (c # cs) =
     (if c = d then [] # splitOn d cs
      else (case splitOn d cs of
              [] \<Rightarrow> [[c]]
            | seg # segs \<Rightarrow> (c # seg) # segs))"

fun joinWith :: "string \<Rightarrow> string list \<Rightarrow> string" where
  "joinWith sep [] = []"
| "joinWith sep [x] = x"
| "joinWith sep (x # y # ys) = x @ sep @ joinWith sep (y # ys)"

text \<open>
  \<open>normalizeString\<close>: the second argument is the stack of segments kept so far, the
  last one first.
\<close>

fun normalizeString :: "bool \<Rightarrow> string list \<Rightarrow> string list \<Rightarrow> string list" where
  "normalizeString allowAboveRoot acc [] = rev acc"
| "normalizeString allowAboveRoot acc (seg # segs) =
     (if seg = [] \<or> seg = ''.'' then normalizeString allowAboveRoot acc segs
      else if seg = ''..'' then
        (case acc of
           [] \<Rightarrow> normalizeString allowAboveRoot (if allowAboveRoot then [''..''] else []) segs
         | seg0 # below \<Rightarrow>
             if seg0 = ''..''
             then normalizeString allowAboveRoot (if allowAboveRoot then ''..'' # acc else acc) segs
             else normalizeString allowAboveRoot below segs)
      else normalizeString allowAboveRoot (seg # acc) segs)"

definition path_normalize :: "path \<Rightarrow> path" where
  "path_normalize p =
     (if p = [] then ''.''
      else
        let isAbsolute = (hd p = CHR ''/'');
            trailingSeparator = (last p = CHR ''/'');
            q = joinWith ''/'' (normalizeString (\<not> isAbsolute) [] (splitOn CHR ''/'' p))
        in if q = [] then (if isAbsolute then ''/'' else if trailingSeparator then ''./'' else ''.'')
           else (if isAbsolute then ''/'' else []) @ q @ (if trailingSeparator then ''/'' else []))"

definition path_join :: "string list \<Rightarrow> path" where
  "path_join args =
     (let joined = joinWith ''/'' (filter (\<lambda>a. a \<noteq> []) args)
      in if joined = [] then ''.'' else path_normalize joined)"

section \<open>JSON values and the JavaScript operations on them\<close>

text \<open>
  What \<open>JSON.parse\<close> returns. An object is its list of entries in insertion order;
  \<open>undefined\<close> is \<open>None\<close> of \<open>json option\<close>. A number is kept as the text that
  \<open>String\<close> prints for it (\<open>14\<close>, \<open>0.5\<close>, \<open>1e+21\<close>, \<open>Infinity\<close>): the sources test a
  number for truthiness and print it in the message of a TypeError, nothing else. Zero
  and minus zero both print \<open>0\<close>; \<open>JSON.parse\<close> never returns \<open>NaN\<close>.
\<close>

datatype json =
    JNull
  | JBool bool
  | JNumber string
  | JString string
  | JArray "json list"
  | JObject "(string \<times> json) list"

fun truthy :: "json \<Rightarrow> bool" where
  "truthy JNull = False"
| "truthy (JBool b) = b"
| "truthy (JNumber n) = (n \<noteq> ''0'')"
| "truthy (JString s) = (s \<noteq> [])"
| "truthy (JArray xs) = True"
| "truthy (JObject kvs) = True"

fun truthy_opt :: "json option \<Rightarrow> bool" where
  "truthy_opt None = False"
| "truthy_opt (Some v) = truthy v"

text \<open>A truthy optional string: present and not empty.\<close>

fun truthy_str :: "string option \<Rightarrow> string option" where
  "truthy_str None = None"
| "truthy_str (Some s) = (if s = [] then None else Some s)"

text \<open>
  What a \<open>throw\<close> carries: an \<open>Error\<close> with its message, the \<open>Error\<close> of a failed child
  process with its exit code and message, or a value that is not an \<open>Error\<close> (with its
  \<open>String(...)\<close> rendering and its truthiness).
\<close>

datatype thrown =
    Error string
  | ExecError nat string
  | NonError string bool

fun instanceofError :: "thrown \<Rightarrow> bool" where
  "instanceofError (Error m) = True"
| "instanceofError (ExecError c m) = True"
| "instanceofError (NonError s t) = False"

text \<open>\<open>error instanceof Error ? error.message : 'Unknown error'\<close>\<close>

fun messageOrUnknown :: "thrown \<Rightarrow> string" where
  "messageOrUnknown (Error m) = m"
| "messageOrUnknown (ExecError c m) = m"
| "messageOrUnknown (NonError s t) = ''Unknown error''"

text \<open>\<open>error instanceof Error ? error.message : String(error)\<close>\<close>

fun messageOrString :: "thrown \<Rightarrow> string" where
  "messageOrString (Error m) = m"
| "messageOrString (ExecError c m) = m"
| "messageOrString (NonError s t) = s"

fun thrown_truthy :: "thrown \<Rightarrow> bool" where
  "thrown_truthy (Error m) = True"
| "thrown_truthy (ExecError c m) = True"
| "thrown_truthy (NonError s t) = t"

text \<open>
  Reading a property \<open>v.key\<close>, for the keys the sources read (none of them is a property
  of a string, a number, a boolean or an array): \<open>null\<close> raises a TypeError.
\<close>

fun getProp :: "json \<Rightarrow> string \<Rightarrow> thrown + json option" where
  "getProp JNull key =
     Inl (Error (''Cannot read properties of null (reading '' @ [CHR 0x27] @ key @ [CHR 0x27] @ '')''))"
| "getProp (JObject kvs) key = Inr (map_of kvs key)"
| "getProp v key = Inr None"

text \<open>Optional chaining \<open>v?.key\<close> on a value that may be \<open>undefined\<close>: never raises.\<close>

fun optChain :: "json option \<Rightarrow> string \<Rightarrow> json option" where
  "optChain (Some (JObject kvs)) key = map_of kvs key"
| "optChain v key = None"

fun assign :: "(string \<times> json) list \<Rightarrow> string \<Rightarrow> json \<Rightarrow> (string \<times> json) list" where
  "assign [] key v = [(key, v)]"
| "assign ((k, x) # kvs) key v = (if k = key then (k, v) # kvs else (k, x) # assign kvs key v)"

text \<open>
  An assignment \<open>o.key = v\<close> in strict mode (a class body and an ES module are strict):
  an object keeps the key's place or gets it last; an array takes the property but
  \<open>JSON.stringify\<close> does not print it; \<open>null\<close> and a primitive raise a TypeError.
\<close>

fun typeofName :: "json \<Rightarrow> string" where
  "typeofName (JBool b) = ''boolean''"
| "typeofName (JNumber n) = ''number''"
| "typeofName (JString s) = ''string''"
| "typeofName v = ''object''"

text \<open>\<open>String(p)\<close> of a primitive, as the message of the TypeError prints it.\<close>

fun toStringPrim :: "json \<Rightarrow> string" where
  "toStringPrim (JBool b) = (if b then ''true'' else ''false'')"
| "toStringPrim (JNumber n) = n"
| "toStringPrim (JString s) = s"
| "toStringPrim v = []"

fun setProp :: "json \<Rightarrow> string \<Rightarrow> json \<Rightarrow> thrown + json" where
  "setProp (JObject kvs) key v = Inr (JObject (assign kvs key v))"
| "setProp (JArray xs) key v = Inr (JArray xs)"
| "setProp JNull key v =
     Inl (Error (''Cannot set properties of null (setting '' @ [CHR 0x27] @ key @ [CHR 0x27] @ '')''))"
| "setProp p key v =
     Inl (Error (''Cannot create property '' @ [CHR 0x27] @ key @ [CHR 0x27] @ '' on '' @
                 typeofName p @ '' '' @ [CHR 0x27] @ toStringPrim p @ [CHR 0x27]))"

text \<open>\<open>delete o[key]\<close>\<close>

fun deleteProp :: "json \<Rightarrow> string \<Rightarrow> json" where
  "deleteProp (JObject kvs) key = JObject (filter (\<lambda>kv. fst kv \<noteq> key) kvs)"
| "deleteProp v key = v"

section \<open>The file system and the outside world\<close>

text \<open>
  A file holds text. A text that \<open>JSON.stringify(v, null, 2)\<close> produced is kept as the
  value \<open>v\<close> it prints (\<open>Json v\<close>): \<open>JSON.parse\<close> of it gives \<open>v\<close> back. Any other
  text is \<open>Text\<close>, and what \<open>JSON.parse\<close> makes of it is the environment's
  \<open>JSON_parse_text\<close>.
\<close>

datatype content = Text string | Json json

record world =
  files :: "path \<Rightarrow> content option"
  dirs :: "path set"

record gitRepository =
  repo_type :: string
  repo :: string
  url :: string
  defaultBranch :: string

record link =
  link_type :: string
  link_repo :: string
  org :: string
  productionBranch :: string

record project =
  name :: string
  gitRepository :: "gitRepository option"
  link :: "link option"

text \<open>
  Everything the sources call and do not define: the JSON codec, the failures of file
  system calls, the child processes (\<open>grep\<close>, \<open>npm install\<close>, \<open>find | xargs sed\<close>),
  simple-git, the Vercel client and the process environment. A call's outcome is a
  function of the world it runs in; a call that changes the world returns the new one.
\<close>

record env =
  JSON_parse_text :: "string \<Rightarrow> thrown + json"
  JSON_stringify :: "json \<Rightarrow> string"
  read_error :: "path \<Rightarrow> world \<Rightarrow> thrown option"
  write_error :: "path \<Rightarrow> world \<Rightarrow> thrown option"
  mkdir_error :: "path \<Rightarrow> world \<Rightarrow> thrown option"
  rm_failure :: "path \<Rightarrow> world \<Rightarrow> (thrown \<times> world) option"
  exec_grep :: "path \<Rightarrow> world \<Rightarrow> thrown + string"
  exec_npm_install :: "path \<Rightarrow> world \<Rightarrow> thrown option \<times> world"
  exec_sed :: "path \<Rightarrow> world \<Rightarrow> thrown option \<times> world"
  git_checkIsRepo :: "path \<Rightarrow> world \<Rightarrow> thrown + bool"
  git_checkout :: "path \<Rightarrow> string \<Rightarrow> world \<Rightarrow> thrown option \<times> world"
  git_pull :: "path \<Rightarrow> world \<Rightarrow> thrown option \<times> world"
  git_clone :: "string \<Rightarrow> path \<Rightarrow> string option \<Rightarrow> world \<Rightarrow> thrown option \<times> world"
  git_checkoutLocalBranch :: "path \<Rightarrow> string \<Rightarrow> world \<Rightarrow> thrown option \<times> world"
  git_add :: "path \<Rightarrow> world \<Rightarrow> thrown option \<times> world"
  git_commit :: "path \<Rightarrow> string \<Rightarrow> world \<Rightarrow> thrown option \<times> world"
  git_push :: "path \<Rightarrow> world \<Rightarrow> thrown option \<times> world"
  getProject :: "string \<Rightarrow> thrown + project"
  LOCAL_STORAGE_PATH :: "string option"

definition existsSync :: "path \<Rightarrow> world \<Rightarrow> bool" where
  "existsSync p w = (files w p \<noteq> None \<or> p \<in> dirs w)"

definition readFileSync :: "env \<Rightarrow> path \<Rightarrow> world \<Rightarrow> thrown + content" where
  "readFileSync E p w =
     (case read_error E p w of
        Some e \<Rightarrow> Inl e
      | None \<Rightarrow>
          (case files w p of
             Some c \<Rightarrow> Inr c
           | None \<Rightarrow>
               Inl (Error (if p \<in> dirs w then ''EISDIR: illegal operation on a directory, read''
                           else ''ENOENT: no such file or directory, open '' @ [CHR 0x27] @ p @ [CHR 0x27]))))"

text \<open>A write that fails leaves the file as it was.\<close>

definition writeFileSync :: "env \<Rightarrow> path \<Rightarrow> content \<Rightarrow> world \<Rightarrow> thrown option \<times> world" where
  "writeFileSync E p c w =
     (case write_error E p w of
        Some e \<Rightarrow> (Some e, w)
      | None \<Rightarrow> (None, w\<lparr>files := (files w)(p \<mapsto> c)\<rparr>))"

definition mkdirSync :: "env \<Rightarrow> path \<Rightarrow> world \<Rightarrow> thrown option \<times> world" where
  "mkdirSync E p w =
     (case mkdir_error E p w of
        Some e \<Rightarrow> (Some e, w)
      | None \<Rightarrow> (None, w\<lparr>dirs := insert p (dirs w)\<rparr>))"

definition under :: "path \<Rightarrow> path \<Rightarrow> bool" where
  "under p q = (q = p \<or> prefix (p @ ''/'') q)"

text \<open>
  \<open>fs.rmSync(p, { recursive: true, force: true })\<close>: the path and everything below it
  is gone, or the call fails and leaves the world the environment says.
\<close>

definition rmSync :: "env \<Rightarrow> path \<Rightarrow> world \<Rightarrow> thrown option \<times> world" where
  "rmSync E p w =
     (case rm_failure E p w of
        Some (e, w') \<Rightarrow> (Some e, w')
      | None \<Rightarrow>
          (None, w\<lparr>files := (\<lambda>q. if under p q then None else files w q),
                    dirs := {q \<in> dirs w. \<not> under p q}\<rparr>))"

definition JSON_parse :: "env \<Rightarrow> content \<Rightarrow> thrown + json" where
  "JSON_parse E c = (case c of Json v \<Rightarrow> Inr v | Text s \<Rightarrow> JSON_parse_text E s)"

definition content_text :: "env \<Rightarrow> content \<Rightarrow> string" where
  "content_text E c = (case c of Text s \<Rightarrow> s | Json v \<Rightarrow> JSON_stringify E v)"

section \<open>The conversion pipeline (\<open>conversion-pipeline.ts\<close>)\<close>

record ConversionOptions =
  projectPath :: string
  projectName :: string
  enableKVCache :: "bool option"
  kvNamespaceId :: "string option"
  packageJsonPath :: "string option"

record ConversionResult =
  success :: bool
  message :: string
  logs :: "string list"

text \<open>The pipeline object's mutable part: its \<open>logs\<close> array, and the world it works in.\<close>

record pstate =
  p_logs :: "string list"
  p_world :: world

text \<open>The UTF-8 bytes of U+2705, of U+26A0 U+FE0F and of U+1F389.\<close>

definition check_mark :: string where
  "check_mark = [CHR 0xE2, CHR 0x9C, CHR 0x85]"

definition warning_sign :: string where
  "warning_sign = [CHR 0xE2, CHR 0x9A, CHR 0xA0, CHR 0xEF, CHR 0xB8, CHR 0x8F]"

definition party_popper :: string where
  "party_popper = [CHR 0xF0, CHR 0x9F, CHR 0x8E, CHR 0x89]"

definition getPackageJsonPath :: "ConversionOptions \<Rightarrow> path" where
  "getPackageJsonPath opts =
     (case truthy_str (packageJsonPath opts) of
        Some sub \<Rightarrow> path_join [projectPath opts, sub, ''package.json'']
      | None \<Rightarrow> path_join [projectPath opts, ''package.json''])"

definition log :: "string \<Rightarrow> pstate \<Rightarrow> pstate" where
  "log m s = s\<lparr>p_logs := p_logs s @ [m]\<rparr>"

text \<open>
  A step of the pipeline: it returns the state it leaves and, when it threw, what it
  threw. \<open>andThen\<close> is the next \<open>await\<close> of the \<open>try\<close> block: nothing runs after a throw.
\<close>

type_synonym step = "pstate \<Rightarrow> thrown option \<times> pstate"

definition andThen :: "thrown option \<times> pstate \<Rightarrow> step \<Rightarrow> thrown option \<times> pstate" where
  "andThen r f = (case r of (None, s) \<Rightarrow> f s | (Some e, s) \<Rightarrow> (Some e, s))"

text \<open>\<open>JSON.parse(fs.readFileSync(packageJsonPath, 'utf8'))\<close>\<close>

definition readPackageJson :: "env \<Rightarrow> path \<Rightarrow> world \<Rightarrow> thrown + json" where
  "readPackageJson E p w =
     (case readFileSync E p w of
        Inl e \<Rightarrow> Inl e
      | Inr c \<Rightarrow> JSON_parse E c)"

text \<open>
  \<open>packageJson.dependencies?.next || packageJson.devDependencies?.next\<close>, as a boolean
  (the source tests the negation of each).
\<close>

definition dependsOnNext :: "json \<Rightarrow> thrown + bool" where
  "dependsOnNext packageJson =
     (case getProp packageJson ''dependencies'' of
        Inl e \<Rightarrow> Inl e
      | Inr deps \<Rightarrow>
          if truthy_opt (optChain deps ''next'') then Inr True
          else (case getProp packageJson ''devDependencies'' of
                  Inl e \<Rightarrow> Inl e
                | Inr devDeps \<Rightarrow> Inr (truthy_opt (optChain devDeps ''next''))))"

definition edgeRuntimeWarning :: string where
  "edgeRuntimeWarning =
     warning_sign @ '' WARNING: Edge Runtime usage detected. These will be removed during conversion.''"

definition noEdgeRuntime :: string where
  "noEdgeRuntime = ''No Edge Runtime usage detected '' @ check_mark"

text \<open>Lines 110 to 124: the scan for \<open>export const runtime = "edge"\<close>.\<close>

definition checkEdgeRuntime :: "env \<Rightarrow> ConversionOptions \<Rightarrow> step" where
  "checkEdgeRuntime E opts s =
     (let s1 = log ''Checking for Edge Runtime usage...'' s
      in case exec_grep E (projectPath opts) (p_world s1) of
           Inr stdout \<Rightarrow>
             if trim stdout \<noteq> [] then (None, log edgeRuntimeWarning s1)
             else (None, log noEdgeRuntime s1)
         | Inl e \<Rightarrow> (None, log noEdgeRuntime s1))"

definition notNextJs :: string where
  "notNextJs = ''This project does not appear to be a Next.js project (next package not found)''"

definition verifyNextJsProject :: "env \<Rightarrow> ConversionOptions \<Rightarrow> step" where
  "verifyNextJsProject E opts s =
     (let s1 = log ''Verifying Next.js project...'' s;
          p = getPackageJsonPath opts;
          s2 = (case truthy_str (packageJsonPath opts) of
                  Some sub \<Rightarrow> log (''Using custom package.json path: '' @ sub) s1
                | None \<Rightarrow> s1)
      in if \<not> existsSync p (p_world s2)
         then (Some (Error (''Could not find package.json at '' @ p)), s2)
         else
           (case readPackageJson E p (p_world s2) of
              Inl e \<Rightarrow> (Some e, s2)
            | Inr packageJson \<Rightarrow>
                (case dependsOnNext packageJson of
                   Inl e \<Rightarrow> (Some e, s2)
                 | Inr d \<Rightarrow>
                     if \<not> d then (Some (Error notNextJs), s2)
                     else checkEdgeRuntime E opts (log (''Next.js project verified '' @ check_mark) s2))))"

text \<open>The directory of the manifest: where \<open>npm\<close> runs and the two config files go.\<close>

definition packageDir :: "ConversionOptions \<Rightarrow> path" where
  "packageDir opts =
     (case truthy_str (packageJsonPath opts) of
        Some sub \<Rightarrow> path_join [projectPath opts, sub]
      | None \<Rightarrow> projectPath opts)"

definition installDependencies :: "env \<Rightarrow> ConversionOptions \<Rightarrow> step" where
  "installDependencies E opts s =
     (let s1 = log ''Installing OpenNext dependencies...'' s;
          installDir = packageDir opts;
          s2 = (case truthy_str (packageJsonPath opts) of
                  Some sub \<Rightarrow> log (''Installing dependencies in custom directory: '' @ installDir) s1
                | None \<Rightarrow> s1)
      in case exec_npm_install E installDir (p_world s2) of
           (None, w') \<Rightarrow>
             (None, log (''Dependencies installed successfully '' @ check_mark) (s2\<lparr>p_world := w'\<rparr>))
         | (Some e, w') \<Rightarrow>
             (Some (Error (''Failed to install dependencies: '' @ messageOrUnknown e)),
              s2\<lparr>p_world := w'\<rparr>))"

definition kvEnabled :: "ConversionOptions \<Rightarrow> bool" where
  "kvEnabled opts = (enableKVCache opts = Some True)"

definition openNextConfig :: "ConversionOptions \<Rightarrow> string" where
  \<open>openNextConfig opts =
     ''import { defineCloudflareConfig } from "@opennextjs/cloudflare";\<newline>'' @
     (if kvEnabled opts
      then ''import kvIncrementalCache from "@opennextjs/cloudflare/overrides/incremental-cache/kv-incremental-cache";''
      else []) @
     ''\<newline>\<newline>export default defineCloudflareConfig({\<newline>'' @
     (if kvEnabled opts then ''  incrementalCache: kvIncrementalCache,'' else []) @
     ''\<newline>});\<newline>''\<close>

definition openNextConfigPath :: "ConversionOptions \<Rightarrow> path" where
  "openNextConfigPath opts = path_join [packageDir opts, ''open-next.config.ts'']"

text \<open>Writes a file and, when the write did not throw, logs the line that follows it.\<close>

definition writeThenLog :: "env \<Rightarrow> path \<Rightarrow> content \<Rightarrow> string \<Rightarrow> step" where
  "writeThenLog E p c m s =
     (case writeFileSync E p c (p_world s) of
        (Some e, w') \<Rightarrow> (Some e, s\<lparr>p_world := w'\<rparr>)
      | (None, w') \<Rightarrow> (None, log m (s\<lparr>p_world := w'\<rparr>)))"

definition createOpenNextConfig :: "env \<Rightarrow> ConversionOptions \<Rightarrow> step" where
  "createOpenNextConfig E opts s =
     writeThenLog E (openNextConfigPath opts) (Text (openNextConfig opts))
       (''open-next.config.ts created/updated '' @ check_mark)
       (log ''Creating or updating open-next.config.ts...'' s)"

definition kvNamespaces :: "ConversionOptions \<Rightarrow> string" where
  \<open>kvNamespaces opts =
     (case (if kvEnabled opts then truthy_str (kvNamespaceId opts) else None) of
        Some nsid \<Rightarrow>
          ''[\<newline>  {\<newline>    "binding": "NEXT_CACHE_WORKERS_KV",\<newline>    "id": "'' @ nsid @
          ''"\<newline>  }\<newline>]''
      | None \<Rightarrow> ''[]'')\<close>

definition wranglerConfig :: "ConversionOptions \<Rightarrow> string" where
  \<open>wranglerConfig opts =
     ''{\<newline>  "$schema": "node_modules/wrangler/config-schema.json",\<newline>'' @
     ''  "main": ".open-next/worker.js",\<newline>'' @
     ''  "name": "'' @ projectName opts @ ''",\<newline>'' @
     ''  "compatibility_date": "2024-12-30",\<newline>'' @
     ''  "compatibility_flags": ["nodejs_compat"],\<newline>'' @
     ''  "assets": {\<newline>'' @
     ''    "directory": ".open-next/assets",\<newline>'' @
     ''    "binding": "ASSETS"\<newline>'' @
     ''  },\<newline>'' @
     ''  "kv_namespaces": '' @ kvNamespaces opts @ ''\<newline>}\<newline>''\<close>

definition wranglerPath :: "ConversionOptions \<Rightarrow> path" where
  "wranglerPath opts = path_join [packageDir opts, ''wrangler.jsonc'']"

definition createWranglerConfig :: "env \<Rightarrow> ConversionOptions \<Rightarrow> step" where
  "createWranglerConfig E opts s =
     writeThenLog E (wranglerPath opts) (Text (wranglerConfig opts))
       (''wrangler.jsonc created/updated '' @ check_mark)
       (log ''Creating or updating wrangler.jsonc...'' s)"

definition previewScript :: string where
  "previewScript = ''opennextjs-cloudflare build && wrangler dev''"

definition deployScript :: string where
  "deployScript = ''opennextjs-cloudflare build && wrangler deploy''"

definition typegenScript :: string where
  "typegenScript = ''wrangler types --env-interface CloudflareEnv cloudflare-env.d.ts''"

text \<open>
  Lines 214 to 217, on the parsed manifest. The scripts object is the one the manifest
  refers to, so the three assignments show in the manifest at the place of its
  \<open>scripts\<close> key.
\<close>

definition setScripts :: "json \<Rightarrow> thrown + json" where
  "setScripts packageJson =
     (case getProp packageJson ''scripts'' of
        Inl e \<Rightarrow> Inl e
      | Inr old \<Rightarrow>
          let scripts0 = (case old of
                            Some v \<Rightarrow> if truthy v then v else JObject []
                          | None \<Rightarrow> JObject [])
          in (case setProp packageJson ''scripts'' scripts0 of
                Inl e \<Rightarrow> Inl e
              | Inr packageJson1 \<Rightarrow>
                  (case setProp scripts0 ''preview'' (JString previewScript) of
                     Inl e \<Rightarrow> Inl e
                   | Inr scripts1 \<Rightarrow>
                       (case setProp scripts1 ''deploy'' (JString deployScript) of
                          Inl e \<Rightarrow> Inl e
                        | Inr scripts2 \<Rightarrow>
                            (case setProp scripts2 ''cf-typegen'' (JString typegenScript) of
                               Inl e \<Rightarrow> Inl e
                             | Inr scripts3 \<Rightarrow> setProp packageJson1 ''scripts'' scripts3)))))"

definition updatePackageJson :: "env \<Rightarrow> ConversionOptions \<Rightarrow> step" where
  "updatePackageJson E opts s =
     (let s1 = log ''Updating package.json scripts...'' s;
          p = getPackageJsonPath opts
      in case readPackageJson E p (p_world s1) of
           Inl e \<Rightarrow> (Some e, s1)
         | Inr packageJson \<Rightarrow>
             (case setScripts packageJson of
                Inl e \<Rightarrow> (Some e, s1)
              | Inr packageJson' \<Rightarrow>
                  writeThenLog E p (Json packageJson')
                    (''package.json scripts updated '' @ check_mark) s1))"

definition nextOnPages :: string where
  "nextOnPages = ''@cloudflare/next-on-pages''"

text \<open>
  \<open>delete packageJson[group]['@cloudflare/next-on-pages']\<close>, run only where the entry
  is truthy, so where the manifest and the group are objects.
\<close>

definition deleteNextOnPages :: "json \<Rightarrow> string \<Rightarrow> json" where
  "deleteNextOnPages packageJson grp =
     (case packageJson of
        JObject kvs \<Rightarrow>
          (case map_of kvs grp of
             Some g \<Rightarrow> JObject (assign kvs grp (deleteProp g nextOnPages))
           | None \<Rightarrow> packageJson)
      | _ \<Rightarrow> packageJson)"

text \<open>
  One of the two \<open>if\<close> blocks of lines 229 to 239: it returns the manifest object as
  the block leaves it, or what it threw.
\<close>

definition removeFromGroup ::
  "env \<Rightarrow> path \<Rightarrow> string \<Rightarrow> json \<Rightarrow> pstate \<Rightarrow> (thrown + json) \<times> pstate" where
  "removeFromGroup E p grp packageJson s =
     (case getProp packageJson grp of
        Inl e \<Rightarrow> (Inl e, s)
      | Inr g \<Rightarrow>
          if truthy_opt (optChain g nextOnPages) then
            (let packageJson' = deleteNextOnPages packageJson grp;
                 s1 = log (''Removed @cloudflare/next-on-pages from '' @ grp) s
             in case writeFileSync E p (Json packageJson') (p_world s1) of
                  (Some e, w') \<Rightarrow> (Inl e, s1\<lparr>p_world := w'\<rparr>)
                | (None, w') \<Rightarrow> (Inr packageJson', s1\<lparr>p_world := w'\<rparr>))
          else (Inr packageJson, s))"

text \<open>Lines 241 to 258: the substitution over the source files, whose failure is a note.\<close>

definition removeEdgeRuntime :: "env \<Rightarrow> ConversionOptions \<Rightarrow> step" where
  "removeEdgeRuntime E opts s =
     (case exec_sed E (packageDir opts) (p_world s) of
        (None, w') \<Rightarrow>
          (None, log (''Conflicting references removed '' @ check_mark)
                   (log ''Removed edge runtime declarations from files'' (s\<lparr>p_world := w'\<rparr>)))
      | (Some e, w') \<Rightarrow>
          (None, log (''Conflicting references removed '' @ check_mark)
                   (log ''Note: Could not automatically remove edge runtime declarations. You may need to remove these manually.''
                      (s\<lparr>p_world := w'\<rparr>))))"

definition removeConflictingReferences :: "env \<Rightarrow> ConversionOptions \<Rightarrow> step" where
  "removeConflictingReferences E opts s =
     (let s1 = log ''Removing conflicting references...'' s;
          p = getPackageJsonPath opts
      in case readPackageJson E p (p_world s1) of
           Inl e \<Rightarrow> (Some e, s1)
         | Inr packageJson \<Rightarrow>
             (case removeFromGroup E p ''dependencies'' packageJson s1 of
                (Inl e, s2) \<Rightarrow> (Some e, s2)
              | (Inr packageJson1, s2) \<Rightarrow>
                  (case removeFromGroup E p ''devDependencies'' packageJson1 s2 of
                     (Inl e, s3) \<Rightarrow> (Some e, s3)
                   | (Inr packageJson2, s3) \<Rightarrow> removeEdgeRuntime E opts s3)))"

definition rootGitignore :: "ConversionOptions \<Rightarrow> path" where
  "rootGitignore opts = path_join [projectPath opts, ''.gitignore'']"

definition subfolderGitignore :: "ConversionOptions \<Rightarrow> string \<Rightarrow> path" where
  "subfolderGitignore opts sub = path_join [projectPath opts, sub, ''.gitignore'']"

text \<open>
  Lines 266 to 276: the ignore file to use, and the sub-path when the subfolder's file
  is taken.
\<close>

definition chooseGitignore :: "ConversionOptions \<Rightarrow> world \<Rightarrow> path \<times> string option" where
  "chooseGitignore opts w =
     (case truthy_str (packageJsonPath opts) of
        Some sub \<Rightarrow>
          if \<not> existsSync (rootGitignore opts) w \<and> existsSync (subfolderGitignore opts sub) w
          then (subfolderGitignore opts sub, Some sub)
          else (rootGitignore opts, None)
      | None \<Rightarrow> (rootGitignore opts, None))"

definition openNextIgnore :: string where
  "openNextIgnore = ''\<newline># OpenNext build output\<newline>.open-next\<newline>''"

text \<open>Lines 284 to 290, on the text read (or the empty text of a new file).\<close>

definition appendIgnore :: "env \<Rightarrow> path \<Rightarrow> string \<Rightarrow> step" where
  "appendIgnore E gitignorePath text0 s =
     (if \<not> js_includes text0 ''.open-next''
      then writeThenLog E gitignorePath (Text (text0 @ openNextIgnore))
             (''Added .open-next to .gitignore '' @ check_mark) s
      else (None, log (''.open-next already in .gitignore '' @ check_mark) s))"

definition updateGitignore :: "env \<Rightarrow> ConversionOptions \<Rightarrow> step" where
  "updateGitignore E opts s =
     (let s1 = log ''Updating .gitignore...'' s;
          (gitignorePath, used) = chooseGitignore opts (p_world s1);
          s2 = (case used of
                  Some sub \<Rightarrow> log (''Using .gitignore from subfolder: '' @ sub @ ''/.gitignore'') s1
                | None \<Rightarrow> s1)
      in if existsSync gitignorePath (p_world s2)
         then (case readFileSync E gitignorePath (p_world s2) of
                 Inl e \<Rightarrow> (Some e, s2)
               | Inr c \<Rightarrow> appendIgnore E gitignorePath (content_text E c) s2)
         else appendIgnore E gitignorePath []
                (log ''No existing .gitignore found, creating a new one'' s2))"

text \<open>The seven awaited calls of \<open>run\<close>, in the order of the \<open>try\<close> block.\<close>

definition runSteps :: "env \<Rightarrow> ConversionOptions \<Rightarrow> step" where
  "runSteps E opts s =
     andThen (andThen (andThen (andThen (andThen (andThen
       (verifyNextJsProject E opts s)
       (installDependencies E opts))
       (createOpenNextConfig E opts))
       (createWranglerConfig E opts))
       (updatePackageJson E opts))
       (removeConflictingReferences E opts))
       (updateGitignore E opts)"

definition run :: "env \<Rightarrow> ConversionOptions \<Rightarrow> world \<Rightarrow> ConversionResult \<times> world" where
  "run E opts w =
     (case runSteps E opts (log ''Starting conversion pipeline...'' \<lparr>p_logs = [], p_world = w\<rparr>) of
        (None, s) \<Rightarrow>
          (let s' = log (''Conversion completed successfully! '' @ party_popper) s
           in (\<lparr>success = True,
                message = ''Project successfully converted to use @opennextjs/cloudflare'',
                logs = p_logs s'\<rparr>, p_world s'))
      | (Some e, s) \<Rightarrow>
          (let errorMessage = messageOrUnknown e;
               s' = log (''Error during conversion: '' @ errorMessage) s
           in (\<lparr>success = False,
                message = ''Conversion failed: '' @ errorMessage,
                logs = p_logs s'\<rparr>, p_world s')))"

text \<open>
  The same seven steps as a list, run from the left until one throws; and the line each
  step logs first.
\<close>

definition pipelineSteps :: "env \<Rightarrow> ConversionOptions \<Rightarrow> step list" where
  "pipelineSteps E opts =
     [verifyNextJsProject E opts,
      installDependencies E opts,
      createOpenNextConfig E opts,
      createWranglerConfig E opts,
      updatePackageJson E opts,
      removeConflictingReferences E opts,
      updateGitignore E opts]"

fun runList :: "step list \<Rightarrow> step" where
  "runList [] s = (None, s)"
| "runList (f # fs) s = (case f s of (None, s') \<Rightarrow> runList fs s' | (Some e, s') \<Rightarrow> (Some e, s'))"

text \<open>How many steps of a list were started.\<close>

fun started :: "step list \<Rightarrow> pstate \<Rightarrow> nat" where
  "started [] s = 0"
| "started (f # fs) s = (case f s of (None, s') \<Rightarrow> Suc (started fs s') | (Some e, s') \<Rightarrow> Suc 0)"

definition stepStartLines :: "string list" where
  "stepStartLines =
     [''Verifying Next.js project...'',
      ''Installing OpenNext dependencies...'',
      ''Creating or updating open-next.config.ts...'',
      ''Creating or updating wrangler.jsonc...'',
      ''Updating package.json scripts...'',
      ''Removing conflicting references...'',
      ''Updating .gitignore...'']"

text \<open>
  A manifest has an entry \<open>key\<close> in its group \<open>grp\<close>: manifest and group are objects
  and the group lists the key.
\<close>

definition hasEntry :: "json \<Rightarrow> string \<Rightarrow> string \<Rightarrow> bool" where
  "hasEntry packageJson grp key =
     (case packageJson of
        JObject kvs \<Rightarrow>
          (case map_of kvs grp of
             Some (JObject d) \<Rightarrow> map_of d key \<noteq> None
           | _ \<Rightarrow> False)
      | _ \<Rightarrow> False)"

section \<open>Repository acquisition (\<open>git-utils.ts\<close>)\<close>

record CloneOptions =
  repoUrl :: string
  projectId :: string
  branch :: "string option"
  storagePath :: string

record CloneResult =
  clone_success :: bool
  clone_path :: string
  clone_message :: string
  clone_error :: "thrown option"

text \<open>\<open>repoUrl.trim().replace(/['"]/g, '')\<close>\<close>

definition cleanRepoUrl :: "string \<Rightarrow> string" where
  "cleanRepoUrl u = filter (\<lambda>c. c \<noteq> CHR 0x27 \<and> c \<noteq> CHR 0x22) (trim u)"

text \<open>
  The sanitising as the specification words it, to compare with \<open>cleanRepoUrl\<close>: the
  URL is trimmed and the quote characters around it are stripped, and nothing else.
\<close>

definition stripSurroundingQuotes :: "string \<Rightarrow> string" where
  "stripSurroundingQuotes s = rev (dropWhile isQuote (rev (dropWhile isQuote s)))"

definition spec_sanitize :: "string \<Rightarrow> string" where
  "spec_sanitize u = stripSurroundingQuotes (trim u)"

definition projectDir :: "CloneOptions \<Rightarrow> path" where
  "projectDir opts = path_join [storagePath opts, projectId opts]"

text \<open>The outer \<open>catch\<close> (lines 124 to 144).\<close>

definition cloneFailure :: "CloneOptions \<Rightarrow> thrown \<Rightarrow> CloneResult" where
  "cloneFailure opts e =
     (let m0 = messageOrUnknown e;
          errorMessage =
            (if js_includes m0 ''Authentication failed''
             then ''Authentication failed. This may be a private repository that requires credentials.''
             else if js_includes m0 ''not found''
             then ''Repository not found. Please verify the URL is correct.''
             else if js_includes m0 ''already exists''
             then ''Directory already exists and is not empty.''
             else m0)
      in \<lparr>clone_success = False,
          clone_path = projectDir opts,
          clone_message = ''Failed to clone repository: '' @ errorMessage,
          clone_error = Some (if instanceofError e then e else Error errorMessage)\<rparr>)"

text \<open>
  Lines 102 to 123 with the outer \<open>catch\<close>: the clone, with \<open>-b branch\<close> when a branch
  is given.
\<close>

definition cloneFresh :: "env \<Rightarrow> CloneOptions \<Rightarrow> world \<Rightarrow> CloneResult \<times> world" where
  "cloneFresh E opts w =
     (case git_clone E (cleanRepoUrl (repoUrl opts)) (projectDir opts) (truthy_str (branch opts)) w of
        (None, w') \<Rightarrow>
          (\<lparr>clone_success = True,
            clone_path = projectDir opts,
            clone_message = ''Repository cloned successfully.'',
            clone_error = None\<rparr>, w')
      | (Some e, w') \<Rightarrow> (cloneFailure opts e, w'))"

text \<open>
  The inner \<open>catch\<close> (lines 85 to 99): the directory is removed; \<open>None\<close> lets the clone
  follow, a result is what the function returns.
\<close>

definition removeAndRetry :: "env \<Rightarrow> CloneOptions \<Rightarrow> world \<Rightarrow> CloneResult option \<times> world" where
  "removeAndRetry E opts w =
     (case rmSync E (projectDir opts) w of
        (None, w') \<Rightarrow> (None, w')
      | (Some rmError, w') \<Rightarrow>
          (Some \<lparr>clone_success = False,
                 clone_path = projectDir opts,
                 clone_message = ''Failed to prepare directory for cloning: '' @ messageOrUnknown rmError,
                 clone_error = Some (if instanceofError rmError then rmError else Error ''Unknown error'')\<rparr>,
           w'))"

text \<open>
  The inner \<open>try\<close> (lines 56 to 84) with its \<open>catch\<close>, run when the directory exists.
  \<open>simpleGit(projectDir)\<close> throws inside this \<open>try\<close> when the path is not a directory;
  that throw is part of what \<open>git_checkIsRepo\<close> may answer.
\<close>

definition updateExisting :: "env \<Rightarrow> CloneOptions \<Rightarrow> world \<Rightarrow> CloneResult option \<times> world" where
  "updateExisting E opts w =
     (case git_checkIsRepo E (projectDir opts) w of
        Inl e \<Rightarrow> removeAndRetry E opts w
      | Inr isRepo \<Rightarrow>
          if isRepo then
            (let w1 = (case truthy_str (branch opts) of
                         Some b \<Rightarrow> snd (git_checkout E (projectDir opts) b w)
                       | None \<Rightarrow> w)
             in case git_pull E (projectDir opts) w1 of
                  (None, w2) \<Rightarrow>
                    (Some \<lparr>clone_success = True,
                           clone_path = projectDir opts,
                           clone_message = ''Repository already exists locally. Pulled latest changes.'',
                           clone_error = None\<rparr>, w2)
                | (Some e, w2) \<Rightarrow> removeAndRetry E opts w2)
          else
            (case rmSync E (projectDir opts) w of
               (None, w1) \<Rightarrow> (None, w1)
             | (Some e, w1) \<Rightarrow> removeAndRetry E opts w1))"

text \<open>Lines 53 to 144: what follows once the storage directory is there.\<close>

definition cloneInto :: "env \<Rightarrow> CloneOptions \<Rightarrow> world \<Rightarrow> CloneResult \<times> world" where
  "cloneInto E opts w =
     (if existsSync (projectDir opts) w
      then (case updateExisting E opts w of
              (Some r, w') \<Rightarrow> (r, w')
            | (None, w') \<Rightarrow> cloneFresh E opts w')
      else cloneFresh E opts w)"

definition cloneRepository :: "env \<Rightarrow> CloneOptions \<Rightarrow> world \<Rightarrow> CloneResult \<times> world" where
  "cloneRepository E opts w =
     (if \<not> existsSync (storagePath opts) w
      then (case mkdirSync E (storagePath opts) w of
              (Some e, w') \<Rightarrow>
                (\<lparr>clone_success = False,
                  clone_path = projectDir opts,
                  clone_message = ''Failed to create storage directory: '' @ messageOrUnknown e,
                  clone_error = Some (if instanceofError e then e else Error ''Unknown error'')\<rparr>, w')
            | (None, w') \<Rightarrow> cloneInto E opts w')
      else cloneInto E opts w)"

definition createBranch :: "env \<Rightarrow> path \<Rightarrow> string \<Rightarrow> world \<Rightarrow> bool \<times> world" where
  "createBranch E p branchName w =
     (case git_checkoutLocalBranch E p branchName w of
        (None, w') \<Rightarrow> (True, w')
      | (Some e, w') \<Rightarrow> (False, w'))"

definition commitAndPush :: "env \<Rightarrow> path \<Rightarrow> string \<Rightarrow> world \<Rightarrow> bool \<times> world" where
  "commitAndPush E p m w =
     (case git_add E p w of
        (Some e, w1) \<Rightarrow> (False, w1)
      | (None, w1) \<Rightarrow>
          (case git_commit E p m w1 of
             (Some e, w2) \<Rightarrow> (False, w2)
           | (None, w2) \<Rightarrow>
               (case git_push E p w2 of
                  (Some e, w3) \<Rightarrow> (False, w3)
                | (None, w3) \<Rightarrow> (True, w3))))"

section \<open>The job store and the orchestrator (\<open>api/convert/route.ts\<close>)\<close>

datatype status = Cloning | Converting | Success | Failed | Idle

record job =
  status :: status
  job_logs :: "string list"
  job_message :: "string option"
  job_result :: "ConversionResult option"
  job_error :: "string option"

type_synonym store = "string \<Rightarrow> job option"

text \<open>
  \<open>global.conversionStore\<close> is a plain object, created as \<open>{}\<close>. The map gives the job
  object assigned at an identity. The job assigned at \<open>__proto__\<close> is no entry of the
  object but its prototype (the assignment runs the setter that every object inherits),
  and a read of \<open>__proto__\<close> returns it. A read \<open>global.conversionStore[id]\<close> that finds no
  job object goes up the prototype chain: to a field of the job that is the prototype,
  when there is one, and then to the members of \<open>Object.prototype\<close>.
\<close>

fun statusText :: "status \<Rightarrow> string" where
  "statusText Cloning = ''cloning''"
| "statusText Converting = ''converting''"
| "statusText Success = ''success''"
| "statusText Failed = ''failed''"
| "statusText Idle = ''idle''"

datatype fieldValue = FText string | FLogs "string list" | FResult ConversionResult

definition jobField :: "job \<Rightarrow> string \<Rightarrow> fieldValue option" where
  "jobField j k =
     (if k = ''status'' then Some (FText (statusText (status j)))
      else if k = ''logs'' then Some (FLogs (job_logs j))
      else if k = ''message'' then map_option FText (job_message j)
      else if k = ''result'' then map_option FResult (job_result j)
      else if k = ''error'' then map_option FText (job_error j)
      else None)"

text \<open>The functions that every object inherits from \<open>Object.prototype\<close>.\<close>

definition objectPrototypeFunctions :: "string list" where
  "objectPrototypeFunctions =
     [''constructor'', ''hasOwnProperty'', ''isPrototypeOf'', ''propertyIsEnumerable'',
      ''toLocaleString'', ''toString'', ''valueOf'', ''__defineGetter__'', ''__defineSetter__'',
      ''__lookupGetter__'', ''__lookupSetter__'']"

text \<open>What a read \<open>global.conversionStore[id]\<close> evaluates to.\<close>

datatype held =
    JobObject job
  | JobField fieldValue
  | InheritedFunction
  | ObjectPrototype
  | Undefined

definition storeGet :: "store \<Rightarrow> string \<Rightarrow> held" where
  "storeGet st k =
     (case st k of
        Some j \<Rightarrow> JobObject j
      | None \<Rightarrow>
          if k = ''__proto__'' then ObjectPrototype
          else (case (case st ''__proto__'' of Some pj \<Rightarrow> jobField pj k | None \<Rightarrow> None) of
                  Some v \<Rightarrow> JobField v
                | None \<Rightarrow> if k \<in> set objectPrototypeFunctions then InheritedFunction else Undefined))"

fun heldTruthy :: "held \<Rightarrow> bool" where
  "heldTruthy (JobField (FText t)) = (t \<noteq> [])"
| "heldTruthy Undefined = False"
| "heldTruthy v = True"

text \<open>
  The state the orchestrator works on: \<open>global.conversionStore\<close>, the world, and the
  stores a reader could have seen so far: \<open>suspend\<close> notes the store at every \<open>await\<close>
  of \<open>startConversion\<close>, the only points where another task can run.
\<close>

record sys =
  store :: store
  sys_world :: world
  seen :: "store list"

definition suspend :: "sys \<Rightarrow> sys" where
  "suspend s = s\<lparr>seen := seen s @ [store s]\<rparr>"

definition terminal :: "status \<Rightarrow> bool" where
  "terminal st = (st = Success \<or> st = Failed)"

text \<open>The options object of a start request, as the client's form fills it.\<close>

record ReqOptions =
  req_enableKVCache :: bool
  req_kvNamespaceId :: string
  req_createBranch :: bool
  req_branchName :: string
  req_commitAndPush :: bool
  req_packageJsonPath :: string

text \<open>
  \<open>safelyUpdateConversionStatus\<close>, statement by statement (lines 59 to 79): each
  element is one assignment or \<open>push\<close> on the job object at the identity. (Where line 59
  finds an inherited member instead of a job object, no job object is made and the
  statements that follow do not reach the store.)
\<close>

definition updJob :: "string \<Rightarrow> (job \<Rightarrow> job) \<Rightarrow> store \<Rightarrow> store" where
  "updJob pid f st = (case st pid of None \<Rightarrow> st | Some j \<Rightarrow> st(pid \<mapsto> f j))"

definition ensureJob :: "string \<Rightarrow> store \<Rightarrow> store" where
  "ensureJob pid st =
     (if \<not> heldTruthy (storeGet st pid)
      then st(pid \<mapsto> \<lparr>status = Idle, job_logs = [], job_message = None,
                      job_result = None, job_error = None\<rparr>)
      else st)"

definition safelyUpdateStatements ::
  "string \<Rightarrow> status \<Rightarrow> string \<Rightarrow> thrown option \<Rightarrow> (store \<Rightarrow> store) list" where
  "safelyUpdateStatements pid st m err =
     [ensureJob pid,
      updJob pid (\<lambda>j. j\<lparr>status := st\<rparr>),
      updJob pid (\<lambda>j. j\<lparr>job_message := Some m\<rparr>),
      updJob pid (\<lambda>j. j\<lparr>job_logs := job_logs j @ [m]\<rparr>)] @
     (case err of
        None \<Rightarrow> []
      | Some e \<Rightarrow>
          if thrown_truthy e
          then [updJob pid (\<lambda>j. j\<lparr>job_logs := job_logs j @ [''Error details: '' @ messageOrString e]\<rparr>),
                updJob pid (\<lambda>j. j\<lparr>job_error := Some (messageOrString e)\<rparr>)]
          else [])"

definition safelyUpdateConversionStatus ::
  "string \<Rightarrow> status \<Rightarrow> string \<Rightarrow> thrown option \<Rightarrow> store \<Rightarrow> store" where
  "safelyUpdateConversionStatus pid st m err s0 =
     fold (\<lambda>stmt s. stmt s) (safelyUpdateStatements pid st m err) s0"

text \<open>The store after each statement of a list, in the order of the statements.\<close>

fun statesAfter :: "(store \<Rightarrow> store) list \<Rightarrow> store \<Rightarrow> store list" where
  "statesAfter [] s = []"
| "statesAfter (stmt # stmts) s = stmt s # statesAfter stmts (stmt s)"

text \<open>
  A statement \<open>global.conversionStore[projectId].field ...\<close> of \<open>startConversion\<close>, which
  runs after \<open>POST\<close> has put a job object at the identity: it works on that job object.
  The other branch is the TypeError of a read that gives \<open>undefined\<close>.
\<close>

definition onJob :: "string \<Rightarrow> string \<Rightarrow> (job \<Rightarrow> job) \<Rightarrow> sys \<Rightarrow> thrown option \<times> sys" where
  "onJob pid what f s =
     (case store s pid of
        None \<Rightarrow> (Some (Error (''Cannot '' @ what)), s)
      | Some j \<Rightarrow> (None, s\<lparr>store := (store s)(pid \<mapsto> f j)\<rparr>))"

definition pushLogs :: "string \<Rightarrow> string list \<Rightarrow> sys \<Rightarrow> thrown option \<times> sys" where
  "pushLogs pid ms s =
     onJob pid (''read properties of undefined (reading '' @ [CHR 0x27] @ ''logs'' @ [CHR 0x27] @ '')'')
       (\<lambda>j. j\<lparr>job_logs := job_logs j @ ms\<rparr>) s"

definition setOnJob :: "string \<Rightarrow> string \<Rightarrow> (job \<Rightarrow> job) \<Rightarrow> sys \<Rightarrow> thrown option \<times> sys" where
  "setOnJob pid field f s =
     onJob pid (''set properties of undefined (setting '' @ [CHR 0x27] @ field @ [CHR 0x27] @ '')'') f s"

text \<open>
  How a part of \<open>startConversion\<close>'s \<open>try\<close> block ends: it threw, it returned, or the
  block goes on with a value.
\<close>

datatype 'a outcome = Threw thrown | Returned | Next 'a

definition thenDo :: "thrown option \<times> sys \<Rightarrow> (sys \<Rightarrow> 'a outcome \<times> sys) \<Rightarrow> 'a outcome \<times> sys" where
  "thenDo r f = (case r of (Some e, s) \<Rightarrow> (Threw e, s) | (None, s) \<Rightarrow> f s)"

definition finishFailed :: "string \<Rightarrow> string \<Rightarrow> thrown option \<Rightarrow> sys \<Rightarrow> sys" where
  "finishFailed pid m err s = s\<lparr>store := safelyUpdateConversionStatus pid Failed m err (store s)\<rparr>"

definition linkRepository :: "link \<Rightarrow> gitRepository" where
  "linkRepository l =
     \<lparr>repo_type = link_type l,
      repo = org l @ ''/'' @ link_repo l,
      url = ''https://github.com/'' @ org l @ ''/'' @ link_repo l,
      defaultBranch = productionBranch l\<rparr>"

text \<open>Lines 87 to 118: the project and its repository.\<close>

definition resolveRepository :: "env \<Rightarrow> string \<Rightarrow> sys \<Rightarrow> (project \<times> gitRepository) outcome \<times> sys" where
  "resolveRepository E pid s0 =
     (let s = suspend s0
      in case getProject E pid of
           Inl e \<Rightarrow> (Threw e, s)
         | Inr proj \<Rightarrow>
             thenDo
               (case (gitRepository proj, link proj) of
                  (None, Some l) \<Rightarrow>
                    if link_type l = ''github''
                    then pushLogs pid [''Detected Git repository from link field: '' @ org l @ ''/'' @ link_repo l] s
                    else (None, s)
                | _ \<Rightarrow> (None, s))
               (\<lambda>s1.
                  case (case (gitRepository proj, link proj) of
                          (None, Some l) \<Rightarrow> if link_type l = ''github'' then Some (linkRepository l) else None
                        | (g, _) \<Rightarrow> g) of
                    None \<Rightarrow>
                      (Returned,
                       finishFailed pid ''No git repository found for this project''
                         (Some (Error (''Project doesn'' @ [CHR 0x27] @ ''t have a connected Git repository''))) s1)
                  | Some g \<Rightarrow>
                      thenDo (pushLogs pid [''Fetching project details for '' @ name proj @ ''...''] s1)
                        (\<lambda>s2. thenDo (pushLogs pid [''Repository: '' @ repo g] s2)
                                 (\<lambda>s3. (Next (proj, g), s3)))))"

definition needsFormatting :: "gitRepository \<Rightarrow> bool" where
  "needsFormatting g =
     (repo_type g = ''github'' \<and> \<not> startsWith (url g) ''https://'' \<and> \<not> startsWith (url g) ''git@'')"

definition formatRepoUrl :: "gitRepository \<Rightarrow> string" where
  "formatRepoUrl g =
     (if needsFormatting g then ''https://github.com/'' @ repo g @ ''.git'' else url g)"

text \<open>Lines 120 to 159: the clone; it goes on with the checkout's path.\<close>

definition acquire :: "env \<Rightarrow> string \<Rightarrow> gitRepository \<Rightarrow> sys \<Rightarrow> path outcome \<times> sys" where
  "acquire E pid g s0 =
     (let storageRoot = (case truthy_str (LOCAL_STORAGE_PATH E) of Some p \<Rightarrow> p | None \<Rightarrow> ''./tmp/projects'');
          formattedRepoUrl = formatRepoUrl g
      in thenDo
           (if needsFormatting g
            then pushLogs pid [''Using formatted GitHub URL: '' @ formattedRepoUrl] s0
            else (None, s0))
           (\<lambda>s1. thenDo (pushLogs pid [''Cloning repository from '' @ formattedRepoUrl @ ''...''] s1)
             (\<lambda>s2.
                let s3 = suspend s2;
                    (cloneResult, w') =
                      cloneRepository E
                        \<lparr>repoUrl = formattedRepoUrl, projectId = pid,
                         branch = Some (defaultBranch g), storagePath = storageRoot\<rparr>
                        (sys_world s3);
                    s4 = s3\<lparr>sys_world := w'\<rparr>
                in if \<not> clone_success cloneResult
                   then (Returned,
                         finishFailed pid (''Failed to clone repository: '' @ clone_message cloneResult)
                           (clone_error cloneResult) s4)
                   else
                     thenDo (pushLogs pid [clone_message cloneResult] s4)
                       (\<lambda>s5. thenDo (setOnJob pid ''status'' (\<lambda>j. j\<lparr>status := Converting\<rparr>) s5)
                         (\<lambda>s6. (Next (clone_path cloneResult), s6))))))"

text \<open>Lines 161 to 172: the new branch, when the options ask for one.\<close>

definition branchIfRequested :: "env \<Rightarrow> string \<Rightarrow> path \<Rightarrow> ReqOptions \<Rightarrow> sys \<Rightarrow> unit outcome \<times> sys" where
  "branchIfRequested E pid p opt s0 =
     (if req_createBranch opt \<and> req_branchName opt \<noteq> []
      then
        thenDo (pushLogs pid [''Creating branch: '' @ req_branchName opt @ ''...''] s0)
          (\<lambda>s1.
             let s2 = suspend s1;
                 (branchCreated, w') = createBranch E p (req_branchName opt) (sys_world s2);
                 s3 = s2\<lparr>sys_world := w'\<rparr>
             in thenDo
                  (pushLogs pid
                     [if \<not> branchCreated
                      then ''Warning: Failed to create branch '' @ req_branchName opt @
                           ''. Continuing on current branch.''
                      else ''Created branch: '' @ req_branchName opt] s3)
                  (\<lambda>s4. (Next (), s4)))
      else (Next (), s0))"

definition pipelineOptions :: "path \<Rightarrow> project \<Rightarrow> ReqOptions \<Rightarrow> ConversionOptions" where
  "pipelineOptions p proj opt =
     \<lparr>projectPath = p,
      projectName = name proj,
      enableKVCache = Some (req_enableKVCache opt),
      kvNamespaceId = Some (req_kvNamespaceId opt),
      packageJsonPath = None\<rparr>"

text \<open>Lines 198 to 201: the three assignments that end a run that got through the pipeline.\<close>

definition finalStatements :: "ConversionResult \<Rightarrow> (job \<Rightarrow> job) list" where
  "finalStatements r =
     [(\<lambda>j. j\<lparr>status := (if success r then Success else Failed)\<rparr>),
      (\<lambda>j. j\<lparr>job_message := Some (message r)\<rparr>),
      (\<lambda>j. j\<lparr>job_result := Some r\<rparr>)]"

definition finalize :: "string \<Rightarrow> ConversionResult \<Rightarrow> sys \<Rightarrow> unit outcome \<times> sys" where
  "finalize pid r s =
     thenDo (setOnJob pid ''status'' (fold (\<lambda>f j. f j) (finalStatements r)) s)
       (\<lambda>s1. (Next (), s1))"

text \<open>Lines 174 to 201: the pipeline, the optional commit and push, the final status.\<close>

definition convert ::
  "env \<Rightarrow> string \<Rightarrow> project \<Rightarrow> path \<Rightarrow> ReqOptions \<Rightarrow> sys \<Rightarrow> unit outcome \<times> sys" where
  "convert E pid proj p opt s0 =
     thenDo (pushLogs pid [''Starting conversion pipeline...''] s0)
       (\<lambda>s1.
          let s2 = suspend s1;
              (r, w') = run E (pipelineOptions p proj opt) (sys_world s2);
              s3 = s2\<lparr>sys_world := w'\<rparr>
          in thenDo (pushLogs pid (logs r) s3)
               (\<lambda>s4.
                  if success r \<and> req_commitAndPush opt
                  then
                    thenDo (pushLogs pid [''Committing and pushing changes...''] s4)
                      (\<lambda>s5.
                         let s6 = suspend s5;
                             (commitResult, w'') =
                               commitAndPush E p ''Convert to @opennextjs/cloudflare'' (sys_world s6);
                             s7 = s6\<lparr>sys_world := w''\<rparr>
                         in thenDo
                              (pushLogs pid
                                 [if commitResult then ''Changes committed and pushed successfully''
                                  else ''Warning: Failed to commit and push changes''] s7)
                              (finalize pid r))
                  else finalize pid r s4))"

text \<open>
  The job as lines 174 to 201 leave it, from the job they find, the pipeline's result,
  whether a commit was asked for and what \<open>commitAndPush\<close> returned.
\<close>

definition convertedJob :: "job \<Rightarrow> ConversionResult \<Rightarrow> bool \<Rightarrow> bool \<Rightarrow> job" where
  "convertedJob j0 r wanted commitResult =
     j0\<lparr>status := (if success r then Success else Failed),
        job_logs := job_logs j0 @ [''Starting conversion pipeline...''] @ logs r @
          (if success r \<and> wanted
           then [''Committing and pushing changes...'',
                 if commitResult then ''Changes committed and pushed successfully''
                 else ''Warning: Failed to commit and push changes'']
           else []),
        job_message := Some (message r),
        job_result := Some r\<rparr>"

text \<open>
  Lines 161 to 201, once the checkout is there. The first read of a field of
  \<open>options\<close> (line 163) is a TypeError when the request had none.
\<close>

definition branchAndConvert ::
  "env \<Rightarrow> string \<Rightarrow> project \<Rightarrow> path \<Rightarrow> ReqOptions option \<Rightarrow> sys \<Rightarrow> unit outcome \<times> sys" where
  "branchAndConvert E pid proj p options s =
     (case options of
        None \<Rightarrow>
          (Threw (Error (''Cannot read properties of undefined (reading '' @
                          [CHR 0x27] @ ''createBranch'' @ [CHR 0x27] @ '')'')), s)
      | Some opt \<Rightarrow>
          (case branchIfRequested E pid p opt s of
             (Threw e, s1) \<Rightarrow> (Threw e, s1)
           | (Returned, s1) \<Rightarrow> (Returned, s1)
           | (Next u, s1) \<Rightarrow> convert E pid proj p opt s1))"

text \<open>The \<open>try\<close> block of \<open>startConversion\<close>.\<close>

definition startConversionBody ::
  "env \<Rightarrow> string \<Rightarrow> ReqOptions option \<Rightarrow> sys \<Rightarrow> unit outcome \<times> sys" where
  "startConversionBody E pid options s0 =
     (case resolveRepository E pid s0 of
        (Threw e, s1) \<Rightarrow> (Threw e, s1)
      | (Returned, s1) \<Rightarrow> (Returned, s1)
      | (Next (proj, g), s1) \<Rightarrow>
          (case acquire E pid g s1 of
             (Threw e, s2) \<Rightarrow> (Threw e, s2)
           | (Returned, s2) \<Rightarrow> (Returned, s2)
           | (Next p, s2) \<Rightarrow> branchAndConvert E pid proj p options s2))"

text \<open>The \<open>catch\<close> of \<open>startConversion\<close> (lines 202 to 212).\<close>

definition catchUnexpected :: "string \<Rightarrow> unit outcome \<times> sys \<Rightarrow> sys" where
  "catchUnexpected pid r =
     (case r of
        (Threw e, s) \<Rightarrow>
          finishFailed pid (''Conversion process failed unexpectedly: '' @ messageOrUnknown e) (Some e) s
      | (_, s) \<Rightarrow> s)"

definition startConversion :: "env \<Rightarrow> string \<Rightarrow> ReqOptions option \<Rightarrow> sys \<Rightarrow> sys" where
  "startConversion E pid options s0 = catchUnexpected pid (startConversionBody E pid options s0)"

datatype response = Started | BadRequest | ServerError

record ReqBody =
  body_projectId :: "string option"
  body_options :: "ReqOptions option"

definition initialJob :: job where
  "initialJob = \<lparr>status = Cloning, job_logs = [''Initializing conversion process...''],
                 job_message = None, job_result = None, job_error = None\<rparr>"

text \<open>
  \<open>POST\<close>: \<open>None\<close> is a body that \<open>request.json()\<close> rejects. The conversion is started
  and not awaited; here it runs to its end, and \<open>seen\<close> holds what a reader could see
  on the way.
\<close>

definition POST :: "env \<Rightarrow> ReqBody option \<Rightarrow> sys \<Rightarrow> response \<times> sys" where
  "POST E body s =
     (case body of
        None \<Rightarrow> (ServerError, s)
      | Some b \<Rightarrow>
          (case truthy_str (body_projectId b) of
             None \<Rightarrow> (BadRequest, s)
           | Some pid \<Rightarrow>
               (Started, startConversion E pid (body_options b) (s\<lparr>store := (store s)(pid \<mapsto> initialJob)\<rparr>))))"

section \<open>The status feed (\<open>api/convert/status/route.ts\<close>)\<close>

definition waitingJob :: job where
  "waitingJob = \<lparr>status = Cloning, job_logs = [''Waiting for conversion to start...''],
                 job_message = None, job_result = None, job_error = None\<rparr>"

text \<open>Line 144: \<open>global.conversionStore[projectId] || { status: 'cloning', logs: [...] }\<close>\<close>

definition snapshot :: "string \<Rightarrow> store \<Rightarrow> held" where
  "snapshot pid st =
     (if heldTruthy (storeGet st pid) then storeGet st pid else JobObject waitingJob)"

text \<open>
  \<open>status.status\<close> of line 153: a job object has the field; a string, an array, a
  pipeline result, \<open>Object.prototype\<close> and its functions have none.
\<close>

fun statusOf :: "held \<Rightarrow> status option" where
  "statusOf (JobObject j) = Some (status j)"
| "statusOf v = None"

text \<open>
  \<open>sendUpdate\<close>, over the stores it finds at its successive calls (the first at once,
  the next ones a second apart): the values it hands to \<open>JSON.stringify\<close> and enqueues
  as \<open>data:\<close> lines, and whether it closed the stream. \<open>JSON.stringify\<close> of a function is
  \<open>undefined\<close>, so the line of an inherited function reads \<open>data: undefined\<close>. A list that
  ends before a terminal status leaves the stream open.
\<close>

fun sendUpdate :: "string \<Rightarrow> store list \<Rightarrow> held list \<times> bool" where
  "sendUpdate pid [] = ([], False)"
| "sendUpdate pid (st # later) =
     (if statusOf (snapshot pid st) \<noteq> Some Success \<and> statusOf (snapshot pid st) \<noteq> Some Failed
      then (case sendUpdate pid later of (sent, closed) \<Rightarrow> (snapshot pid st # sent, closed))
      else ([snapshot pid st], True))"

definition GET_status :: "string option \<Rightarrow> store list \<Rightarrow> response + held list \<times> bool" where
  "GET_status projectIdParam polls =
     (case truthy_str projectIdParam of
        None \<Rightarrow> Inl BadRequest
      | Some pid \<Rightarrow> Inr (sendUpdate pid polls))"

section \<open>Reading a generated configuration file\<close>

text \<open>
  What a reader of a generated configuration file finds in it: the JSON grammar (objects,
  arrays, strings with their escapes, \<open>true\<close>, \<open>false\<close>, \<open>null\<close>), read from the text. \<open>None\<close> is
  a text that is not read. Numbers and \<open>\u\<close> escapes are not read: the files the pipeline
  writes hold neither.
\<close>

datatype token = LBrace | RBrace | LBracket | RBracket | Colon | Comma | Str string | Word string







text \<open>
  The values, with the nesting bounded by the number of tokens. A key that comes twice
  keeps its place and takes the later value, as \<open>JSON.parse\<close> does.
\<close>

fun readValue :: "nat \<Rightarrow> token list \<Rightarrow> (json \<times> token list) option"
  and readElements :: "nat \<Rightarrow> json list \<Rightarrow> token list \<Rightarrow> (json \<times> token list) option"
  and readMembers :: "nat \<Rightarrow> (string \<times> json) list \<Rightarrow> token list \<Rightarrow> (json \<times> token list) option"
where
  "readValue 0 ts = None"
| "readValue (Suc n) [] = None"
| "readValue (Suc n) (t # ts) =
     (case t of
        Str s \<Rightarrow> Some (JString s, ts)
      | Word w \<Rightarrow>
          if w = ''true'' then Some (JBool True, ts)
          else if w = ''false'' then Some (JBool False, ts)
          else if w = ''null'' then Some (JNull, ts)
          else None
      | LBracket \<Rightarrow>
          (case ts of
             RBracket # ts' \<Rightarrow> Some (JArray [], ts')
           | _ \<Rightarrow> readElements n [] ts)
      | LBrace \<Rightarrow>
          (case ts of
             RBrace # ts' \<Rightarrow> Some (JObject [], ts')
           | _ \<Rightarrow> readMembers n [] ts)
      | _ \<Rightarrow> None)"
| "readElements 0 acc ts = None"
| "readElements (Suc n) acc ts =
     (case readValue n ts of
        None \<Rightarrow> None
      | Some (v, ts') \<Rightarrow>
          (case ts' of
             Comma # ts'' \<Rightarrow> readElements n (acc @ [v]) ts''
           | RBracket # ts'' \<Rightarrow> Some (JArray (acc @ [v]), ts'')
           | _ \<Rightarrow> None))"
| "readMembers 0 acc ts = None"
| "readMembers (Suc n) acc ts =
     (case ts of
        Str k # Colon # ts1 \<Rightarrow>
          (case readValue n ts1 of
             None \<Rightarrow> None
           | Some (v, ts2) \<Rightarrow>
               (case ts2 of
                  Comma # ts3 \<Rightarrow> readMembers n (assign acc k v) ts3
                | RBrace # ts3 \<Rightarrow> Some (JObject (assign acc k v), ts3)
                | _ \<Rightarrow> None))
      | _ \<Rightarrow> None)"




section \<open>What a reader of the store can see\<close>

text \<open>A value of the feed that shows a terminal status.\<close>

definition terminalSeen :: "held \<Rightarrow> bool" where
  "terminalSeen v = (statusOf v = Some Success \<or> statusOf v = Some Failed)"

text \<open>A store in which a subscriber of the feed sees no terminal status for the identity.\<close>

definition live :: "string \<Rightarrow> store \<Rightarrow> bool" where
  "live pid st = (\<not> terminalSeen (snapshot pid st))"

text \<open>The status of the job object at an identity.\<close>

definition jobStatus :: "string \<Rightarrow> store \<Rightarrow> status option" where
  "jobStatus pid st = map_option status (st pid)"

text \<open>
  A run in progress: no store that a reader could see so far shows a terminal status,
  and the job is there and not terminal. A run that has ended: the same for the stores
  seen, and the job is terminal.
\<close>

definition running :: "string \<Rightarrow> sys \<Rightarrow> bool" where
  "running pid s =
     (list_all (live pid) (seen s) \<and>
      (case jobStatus pid (store s) of Some t \<Rightarrow> \<not> terminal t | None \<Rightarrow> False))"

definition ended :: "string \<Rightarrow> sys \<Rightarrow> bool" where
  "ended pid s =
     (list_all (live pid) (seen s) \<and>
      (case jobStatus pid (store s) of Some t \<Rightarrow> terminal t | None \<Rightarrow> False))"

text \<open>
  What holds after a part of the \<open>try\<close> block: a part that returned has ended the run,
  one that threw or goes on has left it in progress. The whole block has ended the run
  unless it threw.
\<close>

fun phasePost :: "string \<Rightarrow> 'a outcome \<times> sys \<Rightarrow> bool" where
  "phasePost pid (Threw e, s) = running pid s"
| "phasePost pid (Returned, s) = ended pid s"
| "phasePost pid (Next x, s) = running pid s"

fun bodyPost :: "string \<Rightarrow> 'a outcome \<times> sys \<Rightarrow> bool" where
  "bodyPost pid (Threw e, s) = running pid s"
| "bodyPost pid (Returned, s) = ended pid s"
| "bodyPost pid (Next x, s) = ended pid s"

section \<open>Concrete inputs\<close>

definition someRepository :: gitRepository where
  "someRepository = \<lparr>repo_type = ''github'', repo = ''acme/app'',
                      url = ''https://github.com/acme/app'', defaultBranch = ''main''\<rparr>"

definition someProject :: project where
  "someProject = \<lparr>name = ''app'', gitRepository = Some someRepository, link = None\<rparr>"

definition nextManifest :: json where
  "nextManifest =
     JObject [(''name'', JString ''app''),
              (''dependencies'', JObject [(''next'', JString ''14.2.0''), (''react'', JString ''18.3.0'')])]"

definition plainManifest :: json where
  "plainManifest =
     JObject [(''name'', JString ''app''),
              (''dependencies'', JObject [(''react'', JString ''18.3.0'')])]"

text \<open>
  An environment in which every call succeeds and changes nothing but what it is for:
  \<open>grep\<close> finds no match (exit code 1), a clone creates the directory with the manifest
  of a Next.js project, the Vercel client knows one project with a GitHub repository.
\<close>

definition quietEnv :: env where
  "quietEnv =
     \<lparr>JSON_parse_text = (\<lambda>t. Inl (Error ''Unexpected token'')),
      JSON_stringify = (\<lambda>v. ''{}''),
      read_error = (\<lambda>p w. None),
      write_error = (\<lambda>p w. None),
      mkdir_error = (\<lambda>p w. None),
      rm_failure = (\<lambda>p w. None),
      exec_grep = (\<lambda>p w. Inl (ExecError 1 ''Command failed: grep'')),
      exec_npm_install = (\<lambda>p w. (None, w)),
      exec_sed = (\<lambda>p w. (None, w)),
      git_checkIsRepo = (\<lambda>p w. Inr True),
      git_checkout = (\<lambda>p b w. (None, w)),
      git_pull = (\<lambda>p w. (None, w)),
      git_clone = (\<lambda>u p b w. (None, w\<lparr>files := (files w)(path_join [p, ''package.json''] \<mapsto> Json nextManifest),
                                          dirs := insert p (dirs w)\<rparr>)),
      git_checkoutLocalBranch = (\<lambda>p b w. (None, w)),
      git_add = (\<lambda>p w. (None, w)),
      git_commit = (\<lambda>p m w. (None, w)),
      git_push = (\<lambda>p w. (None, w)),
      getProject = (\<lambda>pid. Inr someProject),
      LOCAL_STORAGE_PATH = None\<rparr>"

definition emptyWorld :: world where
  "emptyWorld = \<lparr>files = (\<lambda>p. None), dirs = {}\<rparr>"

definition emptySys :: sys where
  "emptySys = \<lparr>store = (\<lambda>pid. None), sys_world = emptyWorld, seen = []\<rparr>"

text \<open>A store as \<open>POST\<close> leaves it for the project \<open>prj_1\<close>, in an empty world.\<close>

definition startedSys :: sys where
  "startedSys = emptySys\<lparr>store := [''prj_1'' \<mapsto> initialJob]\<rparr>"

text \<open>The quiet environment, but the push is rejected.\<close>

definition rejectingEnv :: env where
  "rejectingEnv = quietEnv\<lparr>git_push := (\<lambda>p w. (Some (Error ''rejected''), w))\<rparr>"

text \<open>The quiet environment, but \<open>npm install\<close> fails.\<close>

definition npmFailingEnv :: env where
  "npmFailingEnv = quietEnv\<lparr>exec_npm_install := (\<lambda>p w. (Some (Error ''npm ERR! network''), w))\<rparr>"

text \<open>The quiet environment, but the clone checks out a project that does not depend on \<open>next\<close>.\<close>

definition plainEnv :: env where
  "plainEnv = quietEnv\<lparr>git_clone :=
     (\<lambda>u p b w. (None, w\<lparr>files := (files w)(path_join [p, ''package.json''] \<mapsto> Json plainManifest),
                          dirs := insert p (dirs w)\<rparr>))\<rparr>"

text \<open>The checkout of a Next.js project at \<open>/co\<close>, and options to convert it.\<close>

definition someCheckout :: world where
  "someCheckout = \<lparr>files = [''/co/package.json'' \<mapsto> Json nextManifest], dirs = {''/co''}\<rparr>"

definition checkoutOptions :: ConversionOptions where
  "checkoutOptions = \<lparr>projectPath = ''/co'', projectName = ''app'', enableKVCache = Some True,
                       kvNamespaceId = Some ''ns123'', packageJsonPath = None\<rparr>"

definition someOptions :: ReqOptions where
  "someOptions =
     \<lparr>req_enableKVCache = True, req_kvNamespaceId = ''ns123'', req_createBranch = True,
      req_branchName = ''cloudflare'', req_commitAndPush = True, req_packageJsonPath = ''apps/web''\<rparr>"

text \<open>A checkout whose \<open>package.json\<close> holds the JSON value \<open>null\<close>.\<close>

definition nullCheckout :: world where
  "nullCheckout = \<lparr>files = [''/co/package.json'' \<mapsto> Json JNull], dirs = {''/co''}\<rparr>"




text \<open>
  An environment with a \<open>git\<close> that keeps its \<open>.git\<close> directory: a clone makes the
  directory a repository, and a path is a repository when it has that directory.
\<close>

definition gitEnv :: env where
  "gitEnv = quietEnv
     \<lparr>git_checkIsRepo := (\<lambda>p w. Inr (path_join [p, ''.git''] \<in> dirs w)),
      git_clone := (\<lambda>u p b w.
        (None, w\<lparr>files := (files w)(path_join [p, ''package.json''] \<mapsto> Json nextManifest),
                  dirs := dirs w \<union> {p, path_join [p, ''.git'']}\<rparr>))\<rparr>"

text \<open>
  The same, but a removal fails while the file \<open>busy\<close> is in the directory, and the failed
  call has removed that file.
\<close>

definition busyEnv :: env where
  "busyEnv = gitEnv
     \<lparr>rm_failure := (\<lambda>p w.
        if files w (p @ ''/busy'') \<noteq> None
        then Some (Error ''EBUSY: resource busy or locked'', w\<lparr>files := (files w)(p @ ''/busy'' := None)\<rparr>)
        else None)\<rparr>"

text \<open>The same, but no removal succeeds.\<close>

definition lockedEnv :: env where
  "lockedEnv = gitEnv\<lparr>rm_failure := (\<lambda>p w. Some (Error ''EPERM: operation not permitted'', w))\<rparr>"

text \<open>A storage directory in which the project's directory holds files and is no repository.\<close>

definition strayOptions :: CloneOptions where
  "strayOptions = \<lparr>repoUrl = ''https://github.com/acme/app'', projectId = ''prj_1'',
                    branch = Some ''main'', storagePath = ''/data''\<rparr>"

definition strayDirectory :: world where
  "strayDirectory =
     \<lparr>files = [''/data/prj_1/notes.txt'' \<mapsto> Text ''left over'', ''/data/prj_1/busy'' \<mapsto> Text ''''],
      dirs = {''/data'', ''/data/prj_1''}\<rparr>"

section \<open>Trimming and the sanitising of the repository URL\<close>

lemma find_stripLeading:
  "find (\<lambda>w. w \<noteq> [] \<and> prefix w (stripLeading ws s)) ws = None"
proof (induction ws s rule: stripLeading.induct)
  case (1 ws s)
  show ?case
  proof (cases "find (\<lambda>w. w \<noteq> [] \<and> prefix w s) ws")
    case None
    then show ?thesis by (subst stripLeading.simps) simp
  next
    case (Some w)
    then show ?thesis using "1.IH"[OF Some] by (subst stripLeading.simps) simp
  qed
qed

lemma stripLeading_fixed:
  "find (\<lambda>w. w \<noteq> [] \<and> prefix w s) ws = None \<Longrightarrow> stripLeading ws s = s"
  by (subst stripLeading.simps) simp

lemma stripLeading_idem: "stripLeading ws (stripLeading ws s) = stripLeading ws s"
  by (rule stripLeading_fixed) (rule find_stripLeading)

lemma suffix_stripLeading: "suffix (stripLeading ws s) s"
proof (induction ws s rule: stripLeading.induct)
  case (1 ws s)
  show ?case
  proof (cases "find (\<lambda>w. w \<noteq> [] \<and> prefix w s) ws")
    case None
    then show ?thesis by (subst stripLeading.simps) simp
  next
    case (Some w)
    have "suffix (stripLeading ws (drop (length w) s)) (drop (length w) s)"
      using "1.IH"[OF Some] .
    then have "suffix (stripLeading ws (drop (length w) s)) s"
      using suffix_drop suffix_order.trans by blast
    then show ?thesis using Some by (subst stripLeading.simps) simp
  qed
qed

lemma prefix_trimEnd: "prefix (trimEnd s) s"
  using suffix_stripLeading[of "map rev whiteSpace" "rev s"]
  by (simp add: trimEnd_def suffix_to_prefix)

lemma trimEnd_idem: "trimEnd (trimEnd s) = trimEnd s"
  by (simp add: trimEnd_def stripLeading_idem)

lemma trimStart_trimEnd_trimStart: "trimStart (trimEnd (trimStart s)) = trimEnd (trimStart s)"
proof -
  let ?t = "trimStart s"
  have none: "find (\<lambda>w. w \<noteq> [] \<and> prefix w ?t) whiteSpace = None"
    unfolding trimStart_def by (rule find_stripLeading)
  have "find (\<lambda>w. w \<noteq> [] \<and> prefix w (trimEnd ?t)) whiteSpace = None"
  proof -
    have "\<And>w. prefix w (trimEnd ?t) \<Longrightarrow> prefix w ?t"
      using prefix_trimEnd prefix_order.trans by blast
    with none show ?thesis by (auto simp: find_None_iff)
  qed
  then show ?thesis unfolding trimStart_def[of "trimEnd _"] by (rule stripLeading_fixed)
qed

lemma trim_idem: "trim (trim s) = trim s"
  by (simp add: trim_def trimStart_trimEnd_trimStart trimEnd_idem)



lemma whiteSpace_table:
  "list_all (\<lambda>w. w \<noteq> [] \<and> (\<forall>c\<in>set w. \<not> isQuote c) \<and>
      (\<forall>c\<in>set (tl w). c \<notin> asciiWhiteSpace) \<and> (\<forall>c\<in>set (butlast w). c \<notin> asciiWhiteSpace)) whiteSpace"
  by (simp add: whiteSpace_def isQuote_def asciiWhiteSpace_def)

lemma whiteSpace_no_quote: "w \<in> set whiteSpace \<Longrightarrow> c \<in> set w \<Longrightarrow> \<not> isQuote c"
  using whiteSpace_table by (auto simp: list_all_iff)

lemma whiteSpace_tail: "w \<in> set whiteSpace \<Longrightarrow> c \<in> set (tl w) \<Longrightarrow> c \<notin> asciiWhiteSpace"
  using whiteSpace_table by (auto simp: list_all_iff)

lemma whiteSpace_butlast: "w \<in> set whiteSpace \<Longrightarrow> c \<in> set (butlast w) \<Longrightarrow> c \<notin> asciiWhiteSpace"
  using whiteSpace_table by (auto simp: list_all_iff)

lemma find_ascii:
  "c \<in> asciiWhiteSpace \<Longrightarrow> find (\<lambda>w. w \<noteq> [] \<and> prefix w (c # s)) whiteSpace = Some [c]"
  unfolding asciiWhiteSpace_def whiteSpace_def
  by (elim insertE emptyE) simp_all

lemma find_rev_ascii:
  "c \<in> asciiWhiteSpace \<Longrightarrow> find (\<lambda>w. w \<noteq> [] \<and> prefix w (c # s)) (map rev whiteSpace) = Some [c]"
  unfolding asciiWhiteSpace_def whiteSpace_def
  by (elim insertE emptyE) simp_all

lemma stripLeading_ascii:
  "c \<in> asciiWhiteSpace \<Longrightarrow> stripLeading whiteSpace (c # s) = stripLeading whiteSpace s"
  by (subst stripLeading.simps) (simp add: find_ascii)

lemma stripLeading_rev_ascii:
  "c \<in> asciiWhiteSpace \<Longrightarrow> stripLeading (map rev whiteSpace) (c # s) = stripLeading (map rev whiteSpace) s"
  by (subst stripLeading.simps) (simp add: find_rev_ascii)

lemma trimStart_pad: "set pad \<subseteq> asciiWhiteSpace \<Longrightarrow> trimStart (pad @ s) = trimStart s"
  by (induction pad) (auto simp: trimStart_def stripLeading_ascii)

lemma trimEnd_pad: "set pad \<subseteq> asciiWhiteSpace \<Longrightarrow> trimEnd (s @ pad) = trimEnd s"
proof (induction pad rule: rev_induct)
  case Nil
  then show ?case by simp
next
  case (snoc c pad)
  have "trimEnd (s @ pad @ [c]) = rev (stripLeading (map rev whiteSpace) (c # rev pad @ rev s))"
    by (simp add: trimEnd_def)
  also have "\<dots> = rev (stripLeading (map rev whiteSpace) (rev pad @ rev s))"
    using snoc.prems by (simp add: stripLeading_rev_ascii)
  also have "\<dots> = trimEnd (s @ pad)" by (simp add: trimEnd_def)
  finally show ?case using snoc by simp
qed

text \<open>A text that trimming leaves alone has no white space at either end.\<close>

lemma trimStart_id_iff:
  "trimStart s = s \<longleftrightarrow> find (\<lambda>w. w \<noteq> [] \<and> prefix w s) whiteSpace = None"
proof
  assume "trimStart s = s"
  then show "find (\<lambda>w. w \<noteq> [] \<and> prefix w s) whiteSpace = None"
    using find_stripLeading[where ws=whiteSpace and s=s] by (simp add: trimStart_def)
next
  assume "find (\<lambda>w. w \<noteq> [] \<and> prefix w s) whiteSpace = None"
  then show "trimStart s = s" by (simp add: trimStart_def stripLeading_fixed)
qed

lemma trimEnd_id_iff:
  "trimEnd s = s \<longleftrightarrow> find (\<lambda>w. w \<noteq> [] \<and> prefix w (rev s)) (map rev whiteSpace) = None"
proof
  assume "trimEnd s = s"
  then have "stripLeading (map rev whiteSpace) (rev s) = rev s"
    by (metis rev_rev_ident trimEnd_def)
  then show "find (\<lambda>w. w \<noteq> [] \<and> prefix w (rev s)) (map rev whiteSpace) = None"
    using find_stripLeading[where ws="map rev whiteSpace" and s="rev s"] by simp
next
  assume "find (\<lambda>w. w \<noteq> [] \<and> prefix w (rev s)) (map rev whiteSpace) = None"
  then show "trimEnd s = s" by (simp add: trimEnd_def stripLeading_fixed)
qed

lemma trim_id_parts:
  assumes "trim s = s"
  shows "trimStart s = s" and "trimEnd s = s"
proof -
  have 1: "suffix (trimStart s) s"
    unfolding trimStart_def by (rule suffix_stripLeading)
  have 2: "prefix (trimEnd (trimStart s)) (trimStart s)" by (rule prefix_trimEnd)
  have "length s \<le> length (trimStart s)"
    using 2 assms by (metis prefix_length_le trim_def)
  moreover have "length (trimStart s) \<le> length s" using 1 by (rule suffix_length_le)
  ultimately have "length (trimStart s) = length s" by simp
  with 1 show a: "trimStart s = s"
    by (metis suffix_def append_eq_append_conv append_Nil length_0_conv length_append add_cancel_right_left)
  with assms show "trimEnd s = s" by (simp add: trim_def)
qed

text \<open>No white space starts inside \<open>x\<close> and runs on into ASCII white space or quotes.\<close>

lemma no_prefix_extend:
  assumes none: "find (\<lambda>w. w \<noteq> [] \<and> prefix w x) whiteSpace = None"
    and x: "x \<noteq> []"
    and r: "\<forall>c\<in>set r. c \<in> asciiWhiteSpace \<or> isQuote c"
  shows "find (\<lambda>w. w \<noteq> [] \<and> prefix w (x @ r)) whiteSpace = None"
proof (rule ccontr)
  assume "find (\<lambda>w. w \<noteq> [] \<and> prefix w (x @ r)) whiteSpace \<noteq> None"
  then obtain w where w: "w \<in> set whiteSpace" "w \<noteq> []" "prefix w (x @ r)"
    by (auto simp: find_None_iff)
  have "\<not> prefix w x" using none w by (auto simp: find_None_iff)
  with w(3) obtain us where us: "w = x @ us" "us \<noteq> []" "prefix us r"
    by (metis prefix_append append.right_neutral prefix_order.refl prefixI)
  then obtain c where c: "c \<in> set us" "c \<in> set r"
    by (metis hd_in_set set_mono_prefix subsetD)
  have "c \<in> set (tl w)" using us c x by (cases x) auto
  moreover have "c \<in> set w" using us c by auto
  ultimately show False
    using r c whiteSpace_tail[OF w(1)] whiteSpace_no_quote[OF w(1)] by blast
qed

lemma no_suffix_extend:
  assumes none: "find (\<lambda>w. w \<noteq> [] \<and> prefix w (rev x)) (map rev whiteSpace) = None"
    and x: "x \<noteq> []"
    and r: "\<forall>c\<in>set r. c \<in> asciiWhiteSpace \<or> isQuote c"
  shows "find (\<lambda>w. w \<noteq> [] \<and> prefix w (rev (r @ x))) (map rev whiteSpace) = None"
proof (rule ccontr)
  assume "find (\<lambda>w. w \<noteq> [] \<and> prefix w (rev (r @ x))) (map rev whiteSpace) \<noteq> None"
  then obtain w where w: "w \<in> set whiteSpace" "w \<noteq> []" "prefix (rev w) (rev x @ rev r)"
    by (auto simp: find_None_iff)
  have "\<not> prefix (rev w) (rev x)" using none w by (auto simp: find_None_iff)
  with w(3) obtain us where us: "rev w = rev x @ us" "us \<noteq> []" "prefix us (rev r)"
    by (metis prefix_append append.right_neutral prefix_order.refl prefixI)
  then obtain c where c: "c \<in> set us" "c \<in> set r"
    by (metis hd_in_set set_mono_prefix subsetD set_rev)
  have "w = rev us @ x" using us(1) by (metis rev_append rev_rev_ident)
  then have "c \<in> set (butlast w)" "c \<in> set w" using c x by (auto simp: butlast_append)
  then show False
    using r c whiteSpace_butlast[OF w(1)] whiteSpace_no_quote[OF w(1)] by blast
qed

lemma none_quotes_front:
  assumes "\<forall>c\<in>set q. isQuote c" and "q \<noteq> []"
  shows "find (\<lambda>w. w \<noteq> [] \<and> prefix w (q @ y)) whiteSpace = None"
proof -
  obtain c q0 where q: "q = c # q0" using assms(2) by (cases q) auto
  have "\<And>w. w \<in> set whiteSpace \<Longrightarrow> w \<noteq> [] \<Longrightarrow> \<not> prefix w (q @ y)"
  proof
    fix w assume w: "w \<in> set whiteSpace" "w \<noteq> []" "prefix w (q @ y)"
    from w(2,3) have "hd w = c" using q by (cases w) auto
    then have "c \<in> set w" using w(2) by (metis hd_in_set)
    then show False using whiteSpace_no_quote[OF w(1)] assms(1) q by auto
  qed
  then show ?thesis by (auto simp: find_None_iff)
qed

lemma none_quotes_back:
  assumes "\<forall>c\<in>set q. isQuote c" and "q \<noteq> []"
  shows "find (\<lambda>w. w \<noteq> [] \<and> prefix w (rev (y @ q))) (map rev whiteSpace) = None"
proof -
  obtain c q0 where q: "rev q = c # q0" using assms(2) by (cases "rev q") auto
  have c: "isQuote c" using assms(1) q by (metis list.set_intros(1) set_rev)
  have "\<And>w. w \<in> set whiteSpace \<Longrightarrow> w \<noteq> [] \<Longrightarrow> \<not> prefix (rev w) (rev (y @ q))"
  proof
    fix w assume w: "w \<in> set whiteSpace" "w \<noteq> []" "prefix (rev w) (rev (y @ q))"
    from w(2,3) have "hd (rev w) = c" using q by (cases "rev w") auto
    then have "c \<in> set w" using w(2) by (metis hd_in_set rev_is_Nil_conv set_rev)
    then show False using whiteSpace_no_quote[OF w(1)] c by auto
  qed
  then show ?thesis by (auto simp: find_None_iff)
qed

lemma trim_quoted:
  assumes q: "\<forall>c\<in>set q. isQuote c" and q': "\<forall>c\<in>set q'. isQuote c" and v: "trim v = v"
  shows "trimStart (q @ v @ q') = q @ v @ q'" and "trimEnd (q @ v @ q') = q @ v @ q'"
proof -
  have v1: "find (\<lambda>w. w \<noteq> [] \<and> prefix w v) whiteSpace = None"
    using trim_id_parts(1)[OF v] by (simp add: trimStart_id_iff)
  have v2: "find (\<lambda>w. w \<noteq> [] \<and> prefix w (rev v)) (map rev whiteSpace) = None"
    using trim_id_parts(2)[OF v] by (simp add: trimEnd_id_iff)
  have "find (\<lambda>w. w \<noteq> [] \<and> prefix w (q @ v @ q')) whiteSpace = None"
  proof (cases "q = []")
    case False
    then show ?thesis using none_quotes_front[OF q] by simp
  next
    case True
    show ?thesis
    proof (cases "v = []")
      case True
      show ?thesis
      proof (cases "q' = []")
        case True
        then show ?thesis using \<open>q = []\<close> \<open>v = []\<close> by (auto simp: find_None_iff)
      next
        case False
        then show ?thesis using none_quotes_front[OF q', of "[]"] \<open>q = []\<close> \<open>v = []\<close> by simp
      qed
    next
      case False
      then show ?thesis using no_prefix_extend[OF v1 False, of q'] q' \<open>q = []\<close> by simp
    qed
  qed
  then show "trimStart (q @ v @ q') = q @ v @ q'" by (simp add: trimStart_id_iff)
  have "find (\<lambda>w. w \<noteq> [] \<and> prefix w (rev (q @ v @ q'))) (map rev whiteSpace) = None"
  proof (cases "q' = []")
    case False
    then show ?thesis using none_quotes_back[OF q', of "q @ v"] by simp
  next
    case True
    show ?thesis
    proof (cases "v = []")
      case True
      show ?thesis
      proof (cases "q = []")
        case True
        then show ?thesis using \<open>q' = []\<close> \<open>v = []\<close> by (auto simp: find_None_iff)
      next
        case False
        then show ?thesis using none_quotes_back[OF q, of "[]"] \<open>q' = []\<close> \<open>v = []\<close> by simp
      qed
    next
      case False
      then show ?thesis using no_suffix_extend[OF v2 False, of q] q \<open>q' = []\<close> by simp
    qed
  qed
  then show "trimEnd (q @ v @ q') = q @ v @ q'" by (simp add: trimEnd_id_iff)
qed

lemma trim_padded:
  assumes pad: "set pad \<subseteq> asciiWhiteSpace" and pad': "set pad' \<subseteq> asciiWhiteSpace"
    and x1: "trimStart x = x" and x2: "trimEnd x = x"
  shows "trim (pad @ x @ pad') = x"
proof (cases "x = []")
  case True
  have "trimStart (pad @ pad') = trimStart ((pad @ pad') @ [])" by simp
  also have "\<dots> = trimStart []" using pad pad' by (intro trimStart_pad) auto
  also have "\<dots> = []" by (simp add: trimStart_def stripLeading_fixed find_None_iff)
  finally have "trimStart (pad @ pad') = []" .
  moreover have "trimEnd [] = []" by (simp add: trimEnd_def stripLeading_fixed find_None_iff)
  ultimately show ?thesis using True by (simp add: trim_def)
next
  case False
  have "find (\<lambda>w. w \<noteq> [] \<and> prefix w (x @ pad')) whiteSpace = None"
    using no_prefix_extend[OF _ False, of pad'] x1 pad' by (auto simp: trimStart_id_iff)
  then have "trimStart (x @ pad') = x @ pad'" by (simp add: trimStart_id_iff)
  then have "trimStart (pad @ x @ pad') = x @ pad'" using trimStart_pad[OF pad] by simp
  then show ?thesis using trimEnd_pad[OF pad'] x2 by (simp add: trim_def)
qed

lemma cleanRepoUrl_wrapped:
  assumes "set pad \<subseteq> asciiWhiteSpace" "set pad' \<subseteq> asciiWhiteSpace"
    "\<forall>c\<in>set q. isQuote c" "\<forall>c\<in>set q'. isQuote c" "\<forall>c\<in>set v. \<not> isQuote c" "trim v = v"
  shows "cleanRepoUrl (pad @ q @ v @ q' @ pad') = v"
proof -
  have "trim (pad @ (q @ v @ q') @ pad') = q @ v @ q'"
    using assms by (intro trim_padded trim_quoted) auto
  then have "cleanRepoUrl (pad @ q @ v @ q' @ pad') = filter (\<lambda>c. \<not> isQuote c) (q @ v @ q')"
    by (simp add: cleanRepoUrl_def isQuote_def)
  also have "\<dots> = v" using assms(3,4,5) by (simp add: filter_id_conv filter_empty_conv)
  finally show ?thesis .
qed

lemma cleanRepoUrl_trim: "cleanRepoUrl (trim u) = cleanRepoUrl u"
  by (simp add: cleanRepoUrl_def trim_idem)

lemma projectDir_repoUrl [simp]: "projectDir (opts\<lparr>repoUrl := u\<rparr>) = projectDir opts"
  by (simp add: projectDir_def)

lemma removeAndRetry_repoUrl [simp]:
  "removeAndRetry E (opts\<lparr>repoUrl := u\<rparr>) = removeAndRetry E opts"
  by (rule ext) (simp add: removeAndRetry_def split: prod.splits option.splits)

lemma updateExisting_repoUrl [simp]:
  "updateExisting E (opts\<lparr>repoUrl := u\<rparr>) = updateExisting E opts"
  by (rule ext) (simp add: updateExisting_def split: prod.splits option.splits sum.splits)

lemma cloneFailure_repoUrl [simp]:
  "cloneFailure (opts\<lparr>repoUrl := u\<rparr>) = cloneFailure opts"
  by (rule ext) (simp add: cloneFailure_def)

lemma cloneFresh_repoUrl:
  "cleanRepoUrl u = cleanRepoUrl u' \<Longrightarrow>
   cloneFresh E (opts\<lparr>repoUrl := u\<rparr>) = cloneFresh E (opts\<lparr>repoUrl := u'\<rparr>)"
  by (rule ext) (simp add: cloneFresh_def split: prod.splits option.splits)

lemma cloneInto_repoUrl:
  "cleanRepoUrl u = cleanRepoUrl u' \<Longrightarrow>
   cloneInto E (opts\<lparr>repoUrl := u\<rparr>) = cloneInto E (opts\<lparr>repoUrl := u'\<rparr>)"
  by (rule ext) (simp add: cloneInto_def cloneFresh_repoUrl[of u u'] split: prod.splits option.splits)

lemma cloneRepository_repoUrl:
  "cleanRepoUrl u = cleanRepoUrl u' \<Longrightarrow>
   cloneRepository E (opts\<lparr>repoUrl := u\<rparr>) w = cloneRepository E (opts\<lparr>repoUrl := u'\<rparr>) w"
  by (simp add: cloneRepository_def cloneInto_repoUrl[of u u'] split: prod.splits option.splits)

text \<open>
  Claim C5, as stated: \<open>cloneRepository\<close> trims the URL and strips the quote characters
  around it, and nothing else. It fails where a quote stands inside the URL: the source
  deletes every quote character, so \<open>a'b\<close> is cloned as \<open>ab\<close>.
\<close>

theorem cleanRepoUrl_strips_interior_quotes:
  "cleanRepoUrl [CHR ''a'', CHR 0x27, CHR ''b''] = ''ab'' \<and>
   spec_sanitize [CHR ''a'', CHR 0x27, CHR ''b''] = [CHR ''a'', CHR 0x27, CHR ''b''] \<and>
   cleanRepoUrl [CHR ''a'', CHR 0x27, CHR ''b''] \<noteq> spec_sanitize [CHR ''a'', CHR 0x27, CHR ''b'']"
  by (simp add: cleanRepoUrl_def spec_sanitize_def stripSurroundingQuotes_def isQuote_def
      trim_def trimStart_def trimEnd_def stripLeading.simps whiteSpace_def)

text \<open>
  Claim C5, amended: the URL passed to \<open>git clone\<close> is the trimmed URL with every single
  and double quote deleted, wherever it stands. Cloning a URL and cloning its trimmed form
  are the same call; and a URL without quotes and without white space at its ends, put
  in quotes and then padded with ASCII white space, is cloned as the bare URL.
\<close>

theorem cleanRepoUrl_deletes_all_quotes:
  "cleanRepoUrl u = filter (\<lambda>c. \<not> isQuote c) (trim u) \<and>
   cleanRepoUrl (trim u) = cleanRepoUrl u \<and>
   cloneRepository E (opts\<lparr>repoUrl := trim u\<rparr>) w = cloneRepository E (opts\<lparr>repoUrl := u\<rparr>) w \<and>
   (set pad \<subseteq> asciiWhiteSpace \<and> set pad' \<subseteq> asciiWhiteSpace \<and>
    (\<forall>c\<in>set q. isQuote c) \<and> (\<forall>c\<in>set q'. isQuote c) \<and>
    (\<forall>c\<in>set v. \<not> isQuote c) \<and> trim v = v \<longrightarrow>
      cleanRepoUrl (pad @ q @ v @ q' @ pad') = v \<and>
      cloneRepository E (opts\<lparr>repoUrl := pad @ q @ v @ q' @ pad'\<rparr>) w =
        cloneRepository E (opts\<lparr>repoUrl := v\<rparr>) w)"
proof (intro conjI impI)
  show "cleanRepoUrl u = filter (\<lambda>c. \<not> isQuote c) (trim u)"
    by (simp add: cleanRepoUrl_def isQuote_def)
  show "cleanRepoUrl (trim u) = cleanRepoUrl u" by (rule cleanRepoUrl_trim)
  show "cloneRepository E (opts\<lparr>repoUrl := trim u\<rparr>) w = cloneRepository E (opts\<lparr>repoUrl := u\<rparr>) w"
    by (rule cloneRepository_repoUrl) (rule cleanRepoUrl_trim)
next
  assume h: "set pad \<subseteq> asciiWhiteSpace \<and> set pad' \<subseteq> asciiWhiteSpace \<and>
    (\<forall>c\<in>set q. isQuote c) \<and> (\<forall>c\<in>set q'. isQuote c) \<and>
    (\<forall>c\<in>set v. \<not> isQuote c) \<and> trim v = v"
  then show wrapped: "cleanRepoUrl (pad @ q @ v @ q' @ pad') = v"
    by (intro cleanRepoUrl_wrapped) simp_all
  have "cleanRepoUrl v = v"
    using h cleanRepoUrl_wrapped[of "[]" "[]" "[]" "[]" v] by simp
  with wrapped show "cloneRepository E (opts\<lparr>repoUrl := pad @ q @ v @ q' @ pad'\<rparr>) w =
        cloneRepository E (opts\<lparr>repoUrl := v\<rparr>) w"
    by (intro cloneRepository_repoUrl) simp
qed

theorem cleanRepoUrl_deletes_all_quotes_witness:
  "cleanRepoUrl ([CHR 0x20, CHR 0x09] @ [CHR 0x22] @ ''https://github.com/acme/app'' @ [CHR 0x22] @ [CHR 0x0A]) =
     ''https://github.com/acme/app''"
proof -
  have pad: "set [CHR 0x20, CHR 0x09] \<subseteq> asciiWhiteSpace \<and> set [CHR 0x0A] \<subseteq> asciiWhiteSpace"
    by (simp add: asciiWhiteSpace_def)
  have q: "(\<forall>c\<in>set [CHR 0x22]. isQuote c)" by (simp add: isQuote_def)
  have v: "(\<forall>c\<in>set ''https://github.com/acme/app''. \<not> isQuote c)" by (simp add: isQuote_def)
  have t: "trim ''https://github.com/acme/app'' = ''https://github.com/acme/app''"
    by (simp add: trim_def trimStart_def trimEnd_def stripLeading.simps whiteSpace_def)
  show ?thesis
    using cleanRepoUrl_deletes_all_quotes[where pad="[CHR 0x20, CHR 0x09]" and pad'="[CHR 0x0A]"
        and q="[CHR 0x22]" and q'="[CHR 0x22]" and v="''https://github.com/acme/app''"]
      pad q v t by blast
qed

section \<open>The generated configuration files\<close>








section \<open>The pipeline: abort and order of the steps\<close>

lemma runList_append:
  "runList (fs @ gs) s = (case runList fs s of (None, s') \<Rightarrow> runList gs s' | (Some e, s') \<Rightarrow> (Some e, s'))"
  by (induction fs arbitrary: s) (auto split: prod.splits option.splits)

lemma runSteps_runList: "runSteps E opts s = runList (pipelineSteps E opts) s"
  by (simp add: runSteps_def pipelineSteps_def andThen_def split: prod.splits option.splits)

lemma runList_abort:
  assumes "k < length fs" and "runList (take k fs) s = (None, sk)" and "(fs ! k) sk = (Some e, s')"
  shows "runList fs s = (Some e, s')"
proof -
  have "fs = take k fs @ (fs ! k) # drop (Suc k) fs"
    using assms(1) by (simp add: id_take_nth_drop)
  then have "runList fs s = runList (take k fs @ (fs ! k) # drop (Suc k) fs) s" by simp
  also have "\<dots> = (Some e, s')"
    using assms(2,3) by (simp add: runList_append)
  finally show ?thesis .
qed

lemma run_failure:
  "runSteps E opts (log ''Starting conversion pipeline...'' \<lparr>p_logs = [], p_world = w\<rparr>) = (Some e, s') \<Longrightarrow>
   run E opts w =
     (\<lparr>success = False, message = ''Conversion failed: '' @ messageOrUnknown e,
       logs = p_logs s' @ [''Error during conversion: '' @ messageOrUnknown e]\<rparr>, p_world s')"
  by (simp add: run_def log_def Let_def)

lemma run_success:
  "runSteps E opts (log ''Starting conversion pipeline...'' \<lparr>p_logs = [], p_world = w\<rparr>) = (None, s') \<Longrightarrow>
   run E opts w =
     (\<lparr>success = True, message = ''Project successfully converted to use @opennextjs/cloudflare'',
       logs = p_logs s' @ [''Conversion completed successfully! '' @ party_popper]\<rparr>, p_world s')"
  by (simp add: run_def log_def Let_def)

lemma dependsOnNext_lacks:
  assumes "j \<noteq> JNull" "\<not> hasEntry j ''dependencies'' ''next''" "\<not> hasEntry j ''devDependencies'' ''next''"
  shows "dependsOnNext j = Inr False"
proof (cases j)
  case (JObject kvs)
  have a: "optChain (map_of kvs ''dependencies'') ''next'' = None"
    using assms(2) JObject
    by (cases "map_of kvs ''dependencies''"; cases "the (map_of kvs ''dependencies'')")
       (auto simp: hasEntry_def)
  have b: "optChain (map_of kvs ''devDependencies'') ''next'' = None"
    using assms(3) JObject
    by (cases "map_of kvs ''devDependencies''"; cases "the (map_of kvs ''devDependencies'')")
       (auto simp: hasEntry_def)
  show ?thesis using JObject a b by (simp add: dependsOnNext_def)
qed (use assms(1) in \<open>simp_all add: dependsOnNext_def\<close>)

lemma verify_not_next:
  assumes "files (p_world s) (getPackageJsonPath opts) = Some c"
    and "read_error E (getPackageJsonPath opts) (p_world s) = None"
    and "JSON_parse E c = Inr j"
    and "dependsOnNext j = Inr False"
  shows "\<exists>s'. verifyNextJsProject E opts s = (Some (Error notNextJs), s') \<and> p_world s' = p_world s"
  using assms
  by (auto simp: verifyNextJsProject_def Let_def existsSync_def readPackageJson_def readFileSync_def
      log_def split: option.splits)

lemma run_not_next:
  assumes "files w (getPackageJsonPath opts) = Some c"
    and "read_error E (getPackageJsonPath opts) w = None"
    and "JSON_parse E c = Inr j"
    and "dependsOnNext j = Inr False"
  shows "\<not> success (fst (run E opts w)) \<and>
         message (fst (run E opts w)) = ''Conversion failed: '' @ notNextJs \<and>
         last (logs (fst (run E opts w))) = ''Error during conversion: '' @ notNextJs \<and>
         snd (run E opts w) = w"
proof -
  let ?s0 = "log ''Starting conversion pipeline...'' \<lparr>p_logs = [], p_world = w\<rparr>"
  have w0: "p_world ?s0 = w" by (simp add: log_def)
  obtain s' where s': "verifyNextJsProject E opts ?s0 = (Some (Error notNextJs), s')" "p_world s' = w"
    using verify_not_next[of ?s0 opts c E j] assms w0 by auto
  have "runSteps E opts ?s0 = (Some (Error notNextJs), s')"
    using s'(1) by (simp add: runSteps_def andThen_def)
  from run_failure[OF this] s'(2) show ?thesis by simp
qed

text \<open>Every step logs its start line first, and no other step's start line.\<close>

lemma writeThenLog_logs:
  "p_logs (snd (writeThenLog E p c m s)) = p_logs s \<or> p_logs (snd (writeThenLog E p c m s)) = p_logs s @ [m]"
  by (auto simp: writeThenLog_def writeFileSync_def log_def split: option.splits prod.splits)

lemma verify_lines:
  "\<exists>xs. p_logs (snd (verifyNextJsProject E opts s)) = p_logs s @ ''Verifying Next.js project...'' # xs \<and>
        (\<forall>x\<in>set xs. x \<notin> set stepStartLines)"
  by (auto simp: verifyNextJsProject_def checkEdgeRuntime_def Let_def log_def stepStartLines_def
      check_mark_def warning_sign_def edgeRuntimeWarning_def noEdgeRuntime_def
      split: option.splits sum.splits)

lemma install_lines:
  "\<exists>xs. p_logs (snd (installDependencies E opts s)) = p_logs s @ ''Installing OpenNext dependencies...'' # xs \<and>
        (\<forall>x\<in>set xs. x \<notin> set stepStartLines)"
  by (auto simp: installDependencies_def Let_def log_def stepStartLines_def check_mark_def
      split: option.splits prod.splits)

lemma openNext_lines:
  "\<exists>xs. p_logs (snd (createOpenNextConfig E opts s)) =
          p_logs s @ ''Creating or updating open-next.config.ts...'' # xs \<and>
        (\<forall>x\<in>set xs. x \<notin> set stepStartLines)"
  using writeThenLog_logs[of E "openNextConfigPath opts" "Text (openNextConfig opts)"
      "''open-next.config.ts created/updated '' @ check_mark"
      "log ''Creating or updating open-next.config.ts...'' s"]
  by (auto simp: createOpenNextConfig_def log_def stepStartLines_def check_mark_def)

lemma wrangler_lines:
  "\<exists>xs. p_logs (snd (createWranglerConfig E opts s)) =
          p_logs s @ ''Creating or updating wrangler.jsonc...'' # xs \<and>
        (\<forall>x\<in>set xs. x \<notin> set stepStartLines)"
  using writeThenLog_logs[of E "wranglerPath opts" "Text (wranglerConfig opts)"
      "''wrangler.jsonc created/updated '' @ check_mark"
      "log ''Creating or updating wrangler.jsonc...'' s"]
  by (auto simp: createWranglerConfig_def log_def stepStartLines_def check_mark_def)

lemma updatePackageJson_lines:
  "\<exists>xs. p_logs (snd (updatePackageJson E opts s)) = p_logs s @ ''Updating package.json scripts...'' # xs \<and>
        (\<forall>x\<in>set xs. x \<notin> set stepStartLines)"
proof -
  let ?s1 = "log ''Updating package.json scripts...'' s"
  have "p_logs (snd (updatePackageJson E opts s)) = p_logs ?s1 \<or>
        p_logs (snd (updatePackageJson E opts s)) = p_logs ?s1 @ [''package.json scripts updated '' @ check_mark]"
    using writeThenLog_logs[of E "getPackageJsonPath opts" _ "''package.json scripts updated '' @ check_mark" ?s1]
    by (auto simp: updatePackageJson_def Let_def split: sum.splits)
  then show ?thesis
    by (auto simp: log_def stepStartLines_def check_mark_def)
qed

lemma removeFromGroup_logs:
  "p_logs (snd (removeFromGroup E p grp j s)) = p_logs s \<or>
   p_logs (snd (removeFromGroup E p grp j s)) = p_logs s @ [''Removed @cloudflare/next-on-pages from '' @ grp]"
  by (auto simp: removeFromGroup_def writeFileSync_def log_def Let_def
      split: option.splits prod.splits sum.splits)

lemma removeEdgeRuntime_logs:
  "\<exists>l. p_logs (snd (removeEdgeRuntime E opts s)) =
         p_logs s @ [l, ''Conflicting references removed '' @ check_mark] \<and>
       l \<in> {''Removed edge runtime declarations from files'',
            ''Note: Could not automatically remove edge runtime declarations. You may need to remove these manually.''}"
  by (auto simp: removeEdgeRuntime_def log_def split: option.splits prod.splits)

lemma removeConflictingReferences_lines:
  "\<exists>xs. p_logs (snd (removeConflictingReferences E opts s)) =
          p_logs s @ ''Removing conflicting references...'' # xs \<and>
        (\<forall>x\<in>set xs. x \<notin> set stepStartLines)"
proof -
  let ?s1 = "log ''Removing conflicting references...'' s"
  let ?p = "getPackageJsonPath opts"
  show ?thesis
  proof (cases "readPackageJson E ?p (p_world ?s1)")
    case (Inl e)
    then show ?thesis by (simp add: removeConflictingReferences_def Let_def log_def)
  next
    case (Inr j)
    obtain r2 s2 where a: "removeFromGroup E ?p ''dependencies'' j ?s1 = (r2, s2)" by fastforce
    have l2: "p_logs s2 = p_logs ?s1 \<or>
              p_logs s2 = p_logs ?s1 @ [''Removed @cloudflare/next-on-pages from '' @ ''dependencies'']"
      using removeFromGroup_logs[of E ?p "''dependencies''" j ?s1] a by simp
    show ?thesis
    proof (cases r2)
      case (Inl e)
      then show ?thesis using Inr a l2
        by (auto simp: removeConflictingReferences_def Let_def log_def stepStartLines_def)
    next
      case j1: (Inr j1)
      obtain r3 s3 where b: "removeFromGroup E ?p ''devDependencies'' j1 s2 = (r3, s3)" by fastforce
      have l3: "p_logs s3 = p_logs s2 \<or>
                p_logs s3 = p_logs s2 @ [''Removed @cloudflare/next-on-pages from '' @ ''devDependencies'']"
        using removeFromGroup_logs[of E ?p "''devDependencies''" j1 s2] b by simp
      show ?thesis
      proof (cases r3)
        case (Inl e)
        then show ?thesis using Inr a j1 b l2 l3
          by (auto simp: removeConflictingReferences_def Let_def log_def stepStartLines_def)
      next
        case j2: (Inr j2)
        obtain l where l: "p_logs (snd (removeEdgeRuntime E opts s3)) =
              p_logs s3 @ [l, ''Conflicting references removed '' @ check_mark]"
          "l \<in> {''Removed edge runtime declarations from files'',
            ''Note: Could not automatically remove edge runtime declarations. You may need to remove these manually.''}"
          using removeEdgeRuntime_logs[of E opts s3] by blast
        have "removeConflictingReferences E opts s = removeEdgeRuntime E opts s3"
          using Inr a j1 b j2 by (simp add: removeConflictingReferences_def Let_def)
        then show ?thesis using l l2 l3
          by (auto simp: log_def stepStartLines_def check_mark_def)
      qed
    qed
  qed
qed

lemma appendIgnore_logs:
  "\<exists>xs. p_logs (snd (appendIgnore E p t s)) = p_logs s @ xs \<and> (\<forall>x\<in>set xs. x \<notin> set stepStartLines)"
  using writeThenLog_logs[of E p "Text (t @ openNextIgnore)" "''Added .open-next to .gitignore '' @ check_mark" s]
  by (auto simp: appendIgnore_def log_def stepStartLines_def check_mark_def)

lemma updateGitignore_lines:
  "\<exists>xs. p_logs (snd (updateGitignore E opts s)) = p_logs s @ ''Updating .gitignore...'' # xs \<and>
        (\<forall>x\<in>set xs. x \<notin> set stepStartLines)"
proof -
  let ?s1 = "log ''Updating .gitignore...'' s"
  obtain gp used where ch: "chooseGitignore opts (p_world ?s1) = (gp, used)" by fastforce
  let ?s2 = "case used of Some sub \<Rightarrow> log (''Using .gitignore from subfolder: '' @ sub @ ''/.gitignore'') ?s1
             | None \<Rightarrow> ?s1"
  have s2: "\<exists>ys. p_logs ?s2 = p_logs s @ ''Updating .gitignore...'' # ys \<and> (\<forall>x\<in>set ys. x \<notin> set stepStartLines)"
    by (cases used) (auto simp: log_def stepStartLines_def)
  have "\<exists>zs. p_logs (snd (updateGitignore E opts s)) = p_logs ?s2 @ zs \<and> (\<forall>x\<in>set zs. x \<notin> set stepStartLines)"
  proof (cases "existsSync gp (p_world ?s2)")
    case True
    show ?thesis
    proof (cases "readFileSync E gp (p_world ?s2)")
      case (Inl e)
      then show ?thesis using True ch by (simp add: updateGitignore_def Let_def)
    next
      case (Inr c)
      then show ?thesis using True ch appendIgnore_logs[of E gp "content_text E c" ?s2]
        by (simp add: updateGitignore_def Let_def)
    qed
  next
    case False
    let ?s3 = "log ''No existing .gitignore found, creating a new one'' ?s2"
    obtain xs where xs: "p_logs (snd (appendIgnore E gp [] ?s3)) = p_logs ?s3 @ xs"
      "\<forall>x\<in>set xs. x \<notin> set stepStartLines"
      using appendIgnore_logs[of E gp "[]" ?s3] by blast
    have eq: "updateGitignore E opts s = appendIgnore E gp [] ?s3"
      using False ch by (simp add: updateGitignore_def Let_def)
    have "p_logs ?s3 = p_logs ?s2 @ [''No existing .gitignore found, creating a new one'']"
      by (simp add: log_def)
    then have "p_logs (snd (updateGitignore E opts s)) =
               p_logs ?s2 @ ''No existing .gitignore found, creating a new one'' # xs"
      using eq xs(1) by simp
    moreover have "\<forall>x\<in>set (''No existing .gitignore found, creating a new one'' # xs). x \<notin> set stepStartLines"
      using xs(2) by (simp add: stepStartLines_def)
    ultimately show ?thesis by blast
  qed
  with s2 show ?thesis by auto
qed

lemma started_le: "started fs s \<le> length fs"
  by (induction fs arbitrary: s) (auto split: prod.splits option.splits)

lemma started_all: "fst (runList fs s) = None \<Longrightarrow> started fs s = length fs"
  by (induction fs arbitrary: s) (auto split: prod.splits option.splits)

lemma runList_lines:
  assumes "list_all2 (\<lambda>f l. l \<in> S \<and> (\<forall>s. \<exists>xs. p_logs (snd (f s)) = p_logs s @ l # xs \<and> (\<forall>x\<in>set xs. x \<notin> S))) fs ls"
  shows "filter (\<lambda>x. x \<in> S) (p_logs (snd (runList fs s))) =
           filter (\<lambda>x. x \<in> S) (p_logs s) @ take (started fs s) ls"
  using assms
proof (induction fs ls arbitrary: s rule: list_all2_induct)
  case Nil
  then show ?case by simp
next
  case (Cons f fs l ls)
  obtain r s1 where fs1: "f s = (r, s1)" by fastforce
  from Cons.hyps(1) have l: "l \<in> S"
    and "\<exists>xs. p_logs (snd (f s)) = p_logs s @ l # xs \<and> (\<forall>x\<in>set xs. x \<notin> S)"
    by blast+
  then obtain xs where xs: "p_logs s1 = p_logs s @ l # xs" "\<forall>x\<in>set xs. x \<notin> S"
    using fs1 by auto
  have nil: "filter (\<lambda>x. x \<in> S) xs = []" using xs(2) by (simp add: filter_empty_conv)
  have f1: "filter (\<lambda>x. x \<in> S) (p_logs s1) = filter (\<lambda>x. x \<in> S) (p_logs s) @ [l]"
    unfolding xs(1) using l nil by simp
  show ?case
  proof (cases r)
    case None
    then show ?thesis using fs1 f1 Cons.IH[of s1] by simp
  next
    case (Some e)
    then show ?thesis using fs1 f1 by simp
  qed
qed

lemma pipeline_lines:
  "filter (\<lambda>x. x \<in> set stepStartLines) (p_logs (snd (runSteps E opts s))) =
     filter (\<lambda>x. x \<in> set stepStartLines) (p_logs s) @ take (started (pipelineSteps E opts) s) stepStartLines"
proof -
  have "list_all2 (\<lambda>f l. l \<in> set stepStartLines \<and>
          (\<forall>s. \<exists>xs. p_logs (snd (f s)) = p_logs s @ l # xs \<and> (\<forall>x\<in>set xs. x \<notin> set stepStartLines)))
        (pipelineSteps E opts)
        [''Verifying Next.js project...'',
         ''Installing OpenNext dependencies...'',
         ''Creating or updating open-next.config.ts...'',
         ''Creating or updating wrangler.jsonc...'',
         ''Updating package.json scripts...'',
         ''Removing conflicting references...'',
         ''Updating .gitignore...'']"
    unfolding pipelineSteps_def list_all2_Cons list.rel_inject
    using verify_lines install_lines openNext_lines wrangler_lines updatePackageJson_lines
      removeConflictingReferences_lines updateGitignore_lines
    by (intro conjI allI) (simp_all add: stepStartLines_def)
  then have "list_all2 (\<lambda>f l. l \<in> set stepStartLines \<and>
          (\<forall>s. \<exists>xs. p_logs (snd (f s)) = p_logs s @ l # xs \<and> (\<forall>x\<in>set xs. x \<notin> set stepStartLines)))
        (pipelineSteps E opts) stepStartLines"
    by (simp only: stepStartLines_def[symmetric])
  from runList_lines[OF this, of s] show ?thesis
    by (simp add: runSteps_runList)
qed

section \<open>The orchestrator\<close>

lemma pushLogs_Some:
  "store s pid = Some j \<Longrightarrow>
   pushLogs pid ms s = (None, s\<lparr>store := (store s)(pid \<mapsto> j\<lparr>job_logs := job_logs j @ ms\<rparr>)\<rparr>)"
  by (simp add: pushLogs_def onJob_def)

lemma setOnJob_Some:
  "store s pid = Some j \<Longrightarrow> setOnJob pid field f s = (None, s\<lparr>store := (store s)(pid \<mapsto> f j)\<rparr>)"
  by (simp add: setOnJob_def onJob_def)

lemma onJob_None:
  "onJob pid what f s = (None, s') \<Longrightarrow> store s' pid \<noteq> None"
  by (auto simp: onJob_def split: option.splits)

lemma convert_job:
  assumes "store s pid = Some j0"
  shows "fst (convert E pid proj p opt s) = Next () \<and>
         store (snd (convert E pid proj p opt s)) pid =
           Some (convertedJob j0 (fst (run E (pipelineOptions p proj opt) (sys_world s)))
                   (req_commitAndPush opt)
                   (fst (commitAndPush E p ''Convert to @opennextjs/cloudflare''
                          (snd (run E (pipelineOptions p proj opt) (sys_world s))))))"
  using assms
  by (simp add: convert_def thenDo_def pushLogs_def setOnJob_def onJob_def suspend_def Let_def
      case_prod_beta finalize_def finalStatements_def convertedJob_def)

lemma thenDo_Next:
  "thenDo r f = (Next x, s') \<Longrightarrow> \<exists>s1. r = (None, s1) \<and> f s1 = (Next x, s')"
  by (auto simp: thenDo_def split: prod.splits option.splits)

lemma pushLogs_store:
  "pushLogs pid ms s = (None, s1) \<Longrightarrow> store s1 pid \<noteq> None"
  unfolding pushLogs_def by (rule onJob_None)

lemma setOnJob_store:
  "setOnJob pid field f s = (None, s1) \<Longrightarrow> store s1 pid \<noteq> None"
  unfolding setOnJob_def by (rule onJob_None)

lemma acquire_Next_store:
  assumes "acquire E pid g s = (Next p, s')"
  shows "store s' pid \<noteq> None"
proof -
  let ?cr = "\<lambda>s3. cloneRepository E
      \<lparr>repoUrl = formatRepoUrl g, projectId = pid, branch = Some (defaultBranch g),
       storagePath = (case truthy_str (LOCAL_STORAGE_PATH E) of Some p \<Rightarrow> p | None \<Rightarrow> ''./tmp/projects'')\<rparr>
      (sys_world s3)"
  from assms obtain s1 where s1:
    "thenDo (pushLogs pid [''Cloning repository from '' @ formatRepoUrl g @ ''...''] s1)
       (\<lambda>s2. let s3 = suspend s2; (cloneResult, w') = ?cr s3; s4 = s3\<lparr>sys_world := w'\<rparr>
              in if \<not> clone_success cloneResult
                 then (Returned, finishFailed pid (''Failed to clone repository: '' @ clone_message cloneResult)
                                   (clone_error cloneResult) s4)
                 else thenDo (pushLogs pid [clone_message cloneResult] s4)
                        (\<lambda>s5. thenDo (setOnJob pid ''status'' (\<lambda>j. j\<lparr>status := Converting\<rparr>) s5)
                                  (\<lambda>s6. (Next (clone_path cloneResult), s6)))) = (Next p, s')"
    unfolding acquire_def Let_def by (blast dest: thenDo_Next)
  then obtain s2 where s2:
    "(let s3 = suspend s2; (cloneResult, w') = ?cr s3; s4 = s3\<lparr>sys_world := w'\<rparr>
      in if \<not> clone_success cloneResult
         then (Returned, finishFailed pid (''Failed to clone repository: '' @ clone_message cloneResult)
                           (clone_error cloneResult) s4)
         else thenDo (pushLogs pid [clone_message cloneResult] s4)
                (\<lambda>s5. thenDo (setOnJob pid ''status'' (\<lambda>j. j\<lparr>status := Converting\<rparr>) s5)
                          (\<lambda>s6. (Next (clone_path cloneResult), s6)))) = (Next p, s')"
    by (blast dest: thenDo_Next)
  obtain cr w' where cr: "?cr (suspend s2) = (cr, w')" by fastforce
  from s2 cr have
    "thenDo (pushLogs pid [clone_message cr] (suspend s2\<lparr>sys_world := w'\<rparr>))
       (\<lambda>s5. thenDo (setOnJob pid ''status'' (\<lambda>j. j\<lparr>status := Converting\<rparr>) s5)
                 (\<lambda>s6. (Next (clone_path cr), s6))) = (Next p, s')"
    by (simp add: Let_def split: if_splits)
  then obtain s5 where
    "thenDo (setOnJob pid ''status'' (\<lambda>j. j\<lparr>status := Converting\<rparr>) s5) (\<lambda>s6. (Next (clone_path cr), s6)) = (Next p, s')"
    by (blast dest: thenDo_Next)
  then obtain s6 where "setOnJob pid ''status'' (\<lambda>j. j\<lparr>status := Converting\<rparr>) s5 = (None, s6)" "s6 = s'"
    by (auto dest!: thenDo_Next)
  then show ?thesis using setOnJob_store by blast
qed

lemma branchIfRequested_store:
  assumes "store s pid \<noteq> None"
  shows "fst (branchIfRequested E pid p opt s) = Next () \<and> store (snd (branchIfRequested E pid p opt s)) pid \<noteq> None"
  using assms
  by (auto simp: branchIfRequested_def thenDo_def pushLogs_def onJob_def suspend_def Let_def
      case_prod_beta)

lemma startConversion_at_pipeline:
  assumes "resolveRepository E pid s0 = (Next (proj, g), s1)"
    and "acquire E pid g s1 = (Next p, s2)"
  shows "startConversion E pid (Some opt) s0 =
           catchUnexpected pid (convert E pid proj p opt (snd (branchIfRequested E pid p opt s2)))"
    and "store (snd (branchIfRequested E pid p opt s2)) pid \<noteq> None"
proof -
  have st: "store s2 pid \<noteq> None" using assms(2) by (rule acquire_Next_store)
  from branchIfRequested_store[OF st, of E p opt]
  obtain s3 where s3: "branchIfRequested E pid p opt s2 = (Next (), s3)" "store s3 pid \<noteq> None"
    by (metis prod.collapse)
  show "startConversion E pid (Some opt) s0 =
           catchUnexpected pid (convert E pid proj p opt (snd (branchIfRequested E pid p opt s2)))"
    using assms s3 by (simp add: startConversion_def startConversionBody_def branchAndConvert_def)
  show "store (snd (branchIfRequested E pid p opt s2)) pid \<noteq> None" using s3 by simp
qed

lemma catch_convert:
  assumes "store s pid = Some j0"
  shows "store (catchUnexpected pid (convert E pid proj p opt s)) pid =
           Some (convertedJob j0 (fst (run E (pipelineOptions p proj opt) (sys_world s)))
                   (req_commitAndPush opt)
                   (fst (commitAndPush E p ''Convert to @opennextjs/cloudflare''
                          (snd (run E (pipelineOptions p proj opt) (sys_world s))))))"
proof -
  obtain s' where "convert E pid proj p opt s = (Next (), s')"
    using convert_job[OF assms, of E proj p opt] by (metis prod.collapse)
  then show ?thesis using convert_job[OF assms, of E proj p opt] by (simp add: catchUnexpected_def)
qed

lemma started_pipeline_success:
  "fst (runSteps E opts s) = None \<Longrightarrow> started (pipelineSteps E opts) s = 7"
  using started_all[of "pipelineSteps E opts" s]
  by (simp add: runSteps_runList pipelineSteps_def)

lemma run_start_lines:
  "filter (\<lambda>l. l \<in> set stepStartLines) (logs (fst (run E opts w))) =
     take (started (pipelineSteps E opts) (log ''Starting conversion pipeline...'' \<lparr>p_logs = [], p_world = w\<rparr>))
       stepStartLines"
proof -
  let ?s0 = "log ''Starting conversion pipeline...'' \<lparr>p_logs = [], p_world = w\<rparr>"
  obtain r s' where rs: "runSteps E opts ?s0 = (r, s')" by fastforce
  have f: "filter (\<lambda>l. l \<in> set stepStartLines) (p_logs s') =
           take (started (pipelineSteps E opts) ?s0) stepStartLines"
    using pipeline_lines[of E opts ?s0] rs by (simp add: log_def stepStartLines_def)
  show ?thesis
  proof (cases r)
    case None
    with rs run_success[of E opts w s'] f show ?thesis
      by (simp add: stepStartLines_def)
  next
    case (Some e)
    with rs run_failure[of E opts w e s'] f show ?thesis
      by (simp add: stepStartLines_def)
  qed
qed

lemma run_success_started:
  "success (fst (run E opts w)) \<Longrightarrow>
   started (pipelineSteps E opts) (log ''Starting conversion pipeline...'' \<lparr>p_logs = [], p_world = w\<rparr>) = 7"
proof -
  let ?s0 = "log ''Starting conversion pipeline...'' \<lparr>p_logs = [], p_world = w\<rparr>"
  assume a: "success (fst (run E opts w))"
  obtain r s' where rs: "runSteps E opts ?s0 = (r, s')" by fastforce
  have "r = None"
  proof (cases r)
    case (Some e)
    with rs run_failure[of E opts w e s'] a show ?thesis by simp
  qed simp
  then show ?thesis using rs started_pipeline_success[of E opts ?s0] by simp
qed

lemma not_next_line: "js_includes (''Error during conversion: '' @ notNextJs) ''does not appear to be a Next.js project''"
  by (simp add: notNextJs_def)

lemma getPackageJsonPath_pipelineOptions:
  "getPackageJsonPath (pipelineOptions p proj opt) = path_join [p, ''package.json'']"
  by (simp add: getPackageJsonPath_def pipelineOptions_def)

lemma started_abort:
  "k < length fs \<Longrightarrow> runList (take k fs) s = (None, sk) \<Longrightarrow> (fs ! k) sk = (Some e, s') \<Longrightarrow>
   started fs s = Suc k"
proof (induction fs arbitrary: k s)
  case Nil
  then show ?case by simp
next
  case (Cons f fs)
  show ?case
  proof (cases k)
    case 0
    with Cons.prems show ?thesis by simp
  next
    case (Suc k')
    with Cons.prems obtain s1 where s1: "f s = (None, s1)" "runList (take k' fs) s1 = (None, sk)"
      by (auto split: prod.splits option.splits)
    from Cons.IH[of k' s1] Cons.prems Suc s1 have "started fs s1 = Suc k'" by simp
    with s1 Suc show ?thesis by simp
  qed
qed

text \<open>
  Claim C1, as stated: every checkout whose \<open>package.json\<close> lacks a \<open>next\<close> entry in
  \<open>dependencies\<close> and in \<open>devDependencies\<close> ends the run in step 1 with a log entry that
  contains "does not appear to be a Next.js project". It fails for the manifest \<open>null\<close>:
  line 104 reads \<open>packageJson.dependencies\<close> before it tests anything, and the run ends
  in step 1 with the TypeError of that read as its only error line.
\<close>

theorem null_manifest_aborts_with_type_error:
  "\<not> hasEntry JNull ''dependencies'' ''next'' \<and>
   \<not> hasEntry JNull ''devDependencies'' ''next'' \<and>
   files nullCheckout (getPackageJsonPath checkoutOptions) = Some (Json JNull) \<and>
   JSON_parse quietEnv (Json JNull) = Inr JNull \<and>
   fst (run quietEnv checkoutOptions nullCheckout) =
     \<lparr>success = False,
      message = ''Conversion failed: Cannot read properties of null (reading '' @ [CHR 0x27] @
                ''dependencies'' @ [CHR 0x27] @ '')'',
      logs = [''Starting conversion pipeline...'', ''Verifying Next.js project...'',
              ''Error during conversion: Cannot read properties of null (reading '' @ [CHR 0x27] @
              ''dependencies'' @ [CHR 0x27] @ '')'']\<rparr> \<and>
   \<not> js_includes ''Starting conversion pipeline...'' ''does not appear to be a Next.js project'' \<and>
   \<not> js_includes ''Verifying Next.js project...'' ''does not appear to be a Next.js project'' \<and>
   \<not> js_includes (''Error during conversion: Cannot read properties of null (reading '' @ [CHR 0x27] @
                     ''dependencies'' @ [CHR 0x27] @ '')'')
         ''does not appear to be a Next.js project''"
  by code_simp

text \<open>
  Claim C1, amended: the seven steps run in their fixed order and the first one that
  throws ends the run: \<open>run\<close> returns \<open>success = false\<close> with the log as that step left
  it (plus the error line) and the world as that step left it, and the start lines in
  the log are those of the steps up to the failing one, in order. A run that succeeds
  has logged the seven start lines in order. In particular a \<open>package.json\<close> that can be
  read and holds a JSON value other than \<open>null\<close>, without a \<open>next\<close> entry in
  \<open>dependencies\<close> and in \<open>devDependencies\<close>, ends the run in step 1, with a log line
  that contains "does not appear to be a Next.js project" and an untouched checkout,
  and the job of a run of \<open>startConversion\<close> that reaches the pipeline with such a
  manifest ends \<open>failed\<close>.
\<close>

theorem pipeline_aborts_at_first_failure:
  "(k < 7 \<and>
    runList (take k (pipelineSteps E opts))
      (log ''Starting conversion pipeline...'' \<lparr>p_logs = [], p_world = w\<rparr>) = (None, sk) \<and>
    (pipelineSteps E opts ! k) sk = (Some e, s') \<longrightarrow>
      run E opts w =
        (\<lparr>success = False, message = ''Conversion failed: '' @ messageOrUnknown e,
          logs = p_logs s' @ [''Error during conversion: '' @ messageOrUnknown e]\<rparr>, p_world s') \<and>
      filter (\<lambda>l. l \<in> set stepStartLines) (logs (fst (run E opts w))) = take (Suc k) stepStartLines) \<and>
   (success (fst (run E opts w)) \<longrightarrow>
      filter (\<lambda>l. l \<in> set stepStartLines) (logs (fst (run E opts w))) = stepStartLines) \<and>
   (files w (getPackageJsonPath opts) = Some c \<and> read_error E (getPackageJsonPath opts) w = None \<and>
    JSON_parse E c = Inr j \<and> j \<noteq> JNull \<and>
    \<not> hasEntry j ''dependencies'' ''next'' \<and> \<not> hasEntry j ''devDependencies'' ''next'' \<longrightarrow>
      \<not> success (fst (run E opts w)) \<and>
      js_includes (last (logs (fst (run E opts w)))) ''does not appear to be a Next.js project'' \<and>
      filter (\<lambda>l. l \<in> set stepStartLines) (logs (fst (run E opts w))) = [''Verifying Next.js project...''] \<and>
      snd (run E opts w) = w) \<and>
   (resolveRepository E pid s0 = (Next (proj, g), s1) \<and> acquire E pid g s1 = (Next p, s2) \<and>
    files (sys_world (snd (branchIfRequested E pid p opt s2))) (path_join [p, ''package.json'']) = Some c' \<and>
    read_error E (path_join [p, ''package.json'']) (sys_world (snd (branchIfRequested E pid p opt s2))) = None \<and>
    JSON_parse E c' = Inr j' \<and> j' \<noteq> JNull \<and>
    \<not> hasEntry j' ''dependencies'' ''next'' \<and> \<not> hasEntry j' ''devDependencies'' ''next'' \<longrightarrow>
      (\<exists>jb. store (startConversion E pid (Some opt) s0) pid = Some jb \<and> status jb = Failed \<and>
            (\<exists>l\<in>set (job_logs jb). js_includes l ''does not appear to be a Next.js project'')))"
proof (intro conjI impI)
  let ?s0 = "log ''Starting conversion pipeline...'' \<lparr>p_logs = [], p_world = w\<rparr>"
  assume h: "k < 7 \<and> runList (take k (pipelineSteps E opts)) ?s0 = (None, sk) \<and>
             (pipelineSteps E opts ! k) sk = (Some e, s')"
  have len: "length (pipelineSteps E opts) = 7" by (simp add: pipelineSteps_def)
  have "runList (pipelineSteps E opts) ?s0 = (Some e, s')"
    using h len by (intro runList_abort[of k _ _ sk]) simp_all
  then have "runSteps E opts ?s0 = (Some e, s')" by (simp add: runSteps_runList)
  then show "run E opts w =
        (\<lparr>success = False, message = ''Conversion failed: '' @ messageOrUnknown e,
          logs = p_logs s' @ [''Error during conversion: '' @ messageOrUnknown e]\<rparr>, p_world s')"
    by (rule run_failure)
  have "started (pipelineSteps E opts) ?s0 = Suc k"
    using h len by (intro started_abort[of k _ _ sk e s']) simp_all
  then show "filter (\<lambda>l. l \<in> set stepStartLines) (logs (fst (run E opts w))) = take (Suc k) stepStartLines"
    using run_start_lines[of E opts w] by simp
next
  assume "success (fst (run E opts w))"
  from run_success_started[OF this] run_start_lines[of E opts w]
  show "filter (\<lambda>l. l \<in> set stepStartLines) (logs (fst (run E opts w))) = stepStartLines"
    by (simp add: stepStartLines_def)
next
  let ?s0 = "log ''Starting conversion pipeline...'' \<lparr>p_logs = [], p_world = w\<rparr>"
  assume h: "files w (getPackageJsonPath opts) = Some c \<and> read_error E (getPackageJsonPath opts) w = None \<and>
    JSON_parse E c = Inr j \<and> j \<noteq> JNull \<and>
    \<not> hasEntry j ''dependencies'' ''next'' \<and> \<not> hasEntry j ''devDependencies'' ''next''"
  then have d: "dependsOnNext j = Inr False" by (intro dependsOnNext_lacks) simp_all
  note r = run_not_next[of w opts c E j]
  show "\<not> success (fst (run E opts w))" using r h d by simp
  show "js_includes (last (logs (fst (run E opts w)))) ''does not appear to be a Next.js project''"
    using r h d not_next_line by simp
  show "snd (run E opts w) = w" using r h d by simp
  have w0: "p_world ?s0 = w" by (simp add: log_def)
  obtain s' where "verifyNextJsProject E opts ?s0 = (Some (Error notNextJs), s')"
    using verify_not_next[of ?s0 opts c E j] h d w0 by auto
  then have "started (pipelineSteps E opts) ?s0 = Suc 0" by (simp add: pipelineSteps_def)
  then show "filter (\<lambda>l. l \<in> set stepStartLines) (logs (fst (run E opts w))) = [''Verifying Next.js project...'']"
    using run_start_lines[of E opts w] by (simp add: stepStartLines_def)
next
  let ?s3 = "snd (branchIfRequested E pid p opt s2)"
  let ?r = "fst (run E (pipelineOptions p proj opt) (sys_world ?s3))"
  assume h: "resolveRepository E pid s0 = (Next (proj, g), s1) \<and> acquire E pid g s1 = (Next p, s2) \<and>
    files (sys_world ?s3) (path_join [p, ''package.json'']) = Some c' \<and>
    read_error E (path_join [p, ''package.json'']) (sys_world ?s3) = None \<and>
    JSON_parse E c' = Inr j' \<and> j' \<noteq> JNull \<and>
    \<not> hasEntry j' ''dependencies'' ''next'' \<and> \<not> hasEntry j' ''devDependencies'' ''next''"
  then have d: "dependsOnNext j' = Inr False" by (intro dependsOnNext_lacks) simp_all
  have r: "\<not> success ?r" "last (logs ?r) = ''Error during conversion: '' @ notNextJs"
    using run_not_next[of "sys_world ?s3" "pipelineOptions p proj opt" c' E j'] h d
    by (simp_all add: getPackageJsonPath_pipelineOptions)
  have ne: "logs ?r \<noteq> []"
    by (cases "runSteps E (pipelineOptions p proj opt)
                 (log ''Starting conversion pipeline...'' \<lparr>p_logs = [], p_world = sys_world ?s3\<rparr>)")
       (auto simp: run_def Let_def log_def split: option.splits)
  obtain j0 where j0: "store ?s3 pid = Some j0"
    using startConversion_at_pipeline(2)[of E pid s0 proj g s1 p s2 opt] h by blast
  let ?jb = "convertedJob j0 ?r (req_commitAndPush opt)
               (fst (commitAndPush E p ''Convert to @opennextjs/cloudflare''
                      (snd (run E (pipelineOptions p proj opt) (sys_world ?s3)))))"
  have jb: "store (startConversion E pid (Some opt) s0) pid = Some ?jb"
    using startConversion_at_pipeline(1)[of E pid s0 proj g s1 p s2 opt] catch_convert[OF j0] h by simp
  have "status ?jb = Failed" using r(1) by (simp add: convertedJob_def)
  moreover have "last (logs ?r) \<in> set (job_logs ?jb)"
    using ne r(1) by (simp add: convertedJob_def)
  moreover have "js_includes (last (logs ?r)) ''does not appear to be a Next.js project''"
    using r(2) not_next_line by simp
  ultimately show "\<exists>jb. store (startConversion E pid (Some opt) s0) pid = Some jb \<and> status jb = Failed \<and>
            (\<exists>l\<in>set (job_logs jb). js_includes l ''does not appear to be a Next.js project'')"
    using jb by blast
qed

theorem pipeline_aborts_at_first_failure_witness:
  "message (fst (run npmFailingEnv checkoutOptions someCheckout)) =
     ''Conversion failed: Failed to install dependencies: npm ERR! network'' \<and>
   filter (\<lambda>l. l \<in> set stepStartLines) (logs (fst (run npmFailingEnv checkoutOptions someCheckout))) =
     [''Verifying Next.js project...'', ''Installing OpenNext dependencies...''] \<and>
   filter (\<lambda>l. l \<in> set stepStartLines) (logs (fst (run quietEnv checkoutOptions someCheckout))) =
     stepStartLines \<and>
   map_option status (store (startConversion plainEnv ''prj_1'' (Some someOptions) startedSys) ''prj_1'') =
     Some Failed"
proof -
  let ?s0 = "log ''Starting conversion pipeline...'' \<lparr>p_logs = [], p_world = someCheckout\<rparr>"
  let ?sk = "snd (runList (take 1 (pipelineSteps npmFailingEnv checkoutOptions)) ?s0)"
  let ?e = "Error ''Failed to install dependencies: npm ERR! network''"
  let ?s' = "snd ((pipelineSteps npmFailingEnv checkoutOptions ! 1) ?sk)"
  have "fst (runList (take 1 (pipelineSteps npmFailingEnv checkoutOptions)) ?s0) = None" by code_simp
  then have a1: "runList (take 1 (pipelineSteps npmFailingEnv checkoutOptions)) ?s0 = (None, ?sk)"
    by (simp add: prod_eq_iff)
  have "fst ((pipelineSteps npmFailingEnv checkoutOptions ! 1) ?sk) = Some ?e" by code_simp
  then have a2: "(pipelineSteps npmFailingEnv checkoutOptions ! 1) ?sk = (Some ?e, ?s')"
    by (simp add: prod_eq_iff)
  note thm1 = pipeline_aborts_at_first_failure[where k=1 and E=npmFailingEnv and opts=checkoutOptions
      and w=someCheckout and sk="?sk" and e="?e" and s'="?s'"]
  have k: "(1::nat) < 7" by simp
  have r1:
    "run npmFailingEnv checkoutOptions someCheckout =
        (\<lparr>success = False, message = ''Conversion failed: '' @ messageOrUnknown ?e,
          logs = p_logs ?s' @ [''Error during conversion: '' @ messageOrUnknown ?e]\<rparr>, p_world ?s') \<and>
     filter (\<lambda>l. l \<in> set stepStartLines) (logs (fst (run npmFailingEnv checkoutOptions someCheckout))) =
       take (Suc 1) stepStartLines"
    by (rule mp[OF conjunct1[OF thm1]]) (intro conjI k a1 a2)
  have ok: "success (fst (run quietEnv checkoutOptions someCheckout))" by code_simp
  note thm2 = pipeline_aborts_at_first_failure[where E=quietEnv and opts=checkoutOptions and w=someCheckout]
  from thm2 ok have r2:
    "filter (\<lambda>l. l \<in> set stepStartLines) (logs (fst (run quietEnv checkoutOptions someCheckout))) =
       stepStartLines" by blast
  let ?s1 = "snd (resolveRepository plainEnv ''prj_1'' startedSys)"
  let ?s2 = "snd (acquire plainEnv ''prj_1'' someRepository ?s1)"
  let ?p = "''tmp/projects/prj_1''"
  let ?w = "sys_world (snd (branchIfRequested plainEnv ''prj_1'' ?p someOptions ?s2))"
  have "fst (resolveRepository plainEnv ''prj_1'' startedSys) = Next (someProject, someRepository)"
    by code_simp
  then have b1: "resolveRepository plainEnv ''prj_1'' startedSys = (Next (someProject, someRepository), ?s1)"
    by (simp add: prod_eq_iff)
  have "fst (acquire plainEnv ''prj_1'' someRepository ?s1) = Next ?p" by code_simp
  then have b2: "acquire plainEnv ''prj_1'' someRepository ?s1 = (Next ?p, ?s2)"
    by (simp add: prod_eq_iff)
  have b3: "files ?w (path_join [?p, ''package.json'']) = Some (Json plainManifest)" by code_simp
  have b4: "read_error plainEnv (path_join [?p, ''package.json'']) ?w = None" by code_simp
  have b5: "JSON_parse plainEnv (Json plainManifest) = Inr plainManifest" by (simp add: JSON_parse_def)
  have b6: "plainManifest \<noteq> JNull" by (simp add: plainManifest_def)
  have b7: "\<not> hasEntry plainManifest ''dependencies'' ''next''" by code_simp
  have b8: "\<not> hasEntry plainManifest ''devDependencies'' ''next''" by code_simp
  note thm3 = pipeline_aborts_at_first_failure[where E=plainEnv and pid="''prj_1''" and ?s0.0=startedSys
      and proj=someProject and g=someRepository and ?s1.0="?s1" and p="?p" and ?s2.0="?s2"
      and opt=someOptions and c'="Json plainManifest" and j'=plainManifest]
  from thm3 b1 b2 b3 b4 b5 b6 b7 b8 have r3:
    "\<exists>jb. store (startConversion plainEnv ''prj_1'' (Some someOptions) startedSys) ''prj_1'' = Some jb \<and>
          status jb = Failed \<and>
          (\<exists>l\<in>set (job_logs jb). js_includes l ''does not appear to be a Next.js project'')"
    by blast
  show ?thesis using r1 r2 r3 by (auto simp: stepStartLines_def)
qed

text \<open>
  Claim C9: when the pipeline succeeded and the request asked for a commit and push, a
  \<open>commitAndPush\<close> that returns false only adds a warning line to the job's log. The
  job is finalised from the pipeline's result alone: its status is \<open>success\<close> exactly
  when the pipeline's result says so, whatever \<open>commitAndPush\<close> returned.
\<close>

theorem commit_and_push_failure_not_fatal:
  assumes "resolveRepository E pid s0 = (Next (proj, g), s1)"
    and "acquire E pid g s1 = (Next p, s2)"
    and "run E (pipelineOptions p proj opt) (sys_world (snd (branchIfRequested E pid p opt s2))) = (r, w)"
  shows "\<exists>j. store (startConversion E pid (Some opt) s0) pid = Some j \<and>
             status j = (if success r then Success else Failed) \<and>
             job_result j = Some r \<and> job_message j = Some (message r) \<and>
             (success r \<and> req_commitAndPush opt \<and>
              \<not> fst (commitAndPush E p ''Convert to @opennextjs/cloudflare'' w) \<longrightarrow>
                status j = Success \<and> last (job_logs j) = ''Warning: Failed to commit and push changes'')"
proof -
  let ?s3 = "snd (branchIfRequested E pid p opt s2)"
  obtain j0 where j0: "store ?s3 pid = Some j0"
    using startConversion_at_pipeline(2)[OF assms(1,2)] by blast
  have "store (startConversion E pid (Some opt) s0) pid =
          Some (convertedJob j0 r (req_commitAndPush opt)
                  (fst (commitAndPush E p ''Convert to @opennextjs/cloudflare'' w)))"
    using startConversion_at_pipeline(1)[OF assms(1,2)] catch_convert[OF j0] assms(3) by simp
  then show ?thesis by (simp add: convertedJob_def)
qed

theorem commit_and_push_failure_not_fatal_witness:
  "map_option status (store (startConversion rejectingEnv ''prj_1'' (Some someOptions) startedSys) ''prj_1'') =
     Some Success \<and>
   map_option (\<lambda>j. last (job_logs j))
     (store (startConversion rejectingEnv ''prj_1'' (Some someOptions) startedSys) ''prj_1'') =
     Some ''Warning: Failed to commit and push changes''"
proof -
  let ?s1 = "snd (resolveRepository rejectingEnv ''prj_1'' startedSys)"
  let ?s2 = "snd (acquire rejectingEnv ''prj_1'' someRepository ?s1)"
  let ?p = "''tmp/projects/prj_1''"
  let ?run = "run rejectingEnv (pipelineOptions ?p someProject someOptions)
                (sys_world (snd (branchIfRequested rejectingEnv ''prj_1'' ?p someOptions ?s2)))"
  have "fst (resolveRepository rejectingEnv ''prj_1'' startedSys) = Next (someProject, someRepository)"
    by code_simp
  then have a: "resolveRepository rejectingEnv ''prj_1'' startedSys = (Next (someProject, someRepository), ?s1)"
    by (simp add: prod_eq_iff)
  have "fst (acquire rejectingEnv ''prj_1'' someRepository ?s1) = Next ?p"
    by code_simp
  then have b: "acquire rejectingEnv ''prj_1'' someRepository ?s1 = (Next ?p, ?s2)"
    by (simp add: prod_eq_iff)
  have c: "?run = (fst ?run, snd ?run)" by simp
  have d: "success (fst ?run)" by code_simp
  have e: "req_commitAndPush someOptions" by (simp add: someOptions_def)
  have f: "\<not> fst (commitAndPush rejectingEnv ?p ''Convert to @opennextjs/cloudflare'' (snd ?run))"
    by code_simp
  from commit_and_push_failure_not_fatal[OF a b c] d e f show ?thesis by auto
qed

text \<open>
  Claim C8 says that a subscription for an identity without a job gets the placeholder
  snapshot (status \<open>cloning\<close>, the one line that says it waits for the conversion to
  start). The feed does so for \<open>prj_1\<close>. For the identity \<open>constructor\<close> and an empty
  store, the read of line 144 finds the function that every object inherits under that
  name: no placeholder is made, every \<open>data:\<close> line is made from that function (it
  reads \<open>data: undefined\<close>), and the stream stays open.
\<close>

theorem status_feed_inherited_member:
  "storeGet (\<lambda>k. None) ''constructor'' = InheritedFunction \<and>
   GET_status (Some ''constructor'') [\<lambda>k. None, \<lambda>k. None] =
     Inr ([InheritedFunction, InheritedFunction], False) \<and>
   GET_status (Some ''prj_1'') [\<lambda>k. None] = Inr ([JobObject waitingJob], False)"
  by (simp add: GET_status_def snapshot_def storeGet_def objectPrototypeFunctions_def waitingJob_def)

lemma branchIfRequested_packageJsonPath [simp]:
  "branchIfRequested E pid p (opt\<lparr>req_packageJsonPath := sub\<rparr>) = branchIfRequested E pid p opt"
  by (rule ext) (simp add: branchIfRequested_def Let_def case_prod_beta cong: if_cong)

lemma pipelineOptions_packageJsonPath [simp]:
  "pipelineOptions p proj (opt\<lparr>req_packageJsonPath := sub\<rparr>) = pipelineOptions p proj opt"
  by (simp add: pipelineOptions_def)

lemma convert_packageJsonPath [simp]:
  "convert E pid proj p (opt\<lparr>req_packageJsonPath := sub\<rparr>) = convert E pid proj p opt"
  by (rule ext) (simp add: convert_def Let_def case_prod_beta cong: if_cong)

lemma branchAndConvert_packageJsonPath:
  "branchAndConvert E pid proj p (Some (opt\<lparr>req_packageJsonPath := sub\<rparr>)) =
   branchAndConvert E pid proj p (Some opt)"
  by (rule ext) (simp add: branchAndConvert_def split: prod.splits outcome.splits)





section \<open>Terminal status\<close>

lemma thenDo_phasePost:
  assumes "running pid (snd r)" and "\<And>s. running pid s \<Longrightarrow> phasePost pid (f s)"
  shows "phasePost pid (thenDo r f)"
  using assms by (cases r; cases "fst r") (auto simp: thenDo_def)

lemma thenDo_bodyPost:
  assumes "running pid (snd r)" and "\<And>s. running pid s \<Longrightarrow> bodyPost pid (f s)"
  shows "bodyPost pid (thenDo r f)"
  using assms by (cases r; cases "fst r") (auto simp: thenDo_def)

lemma live_job: "st pid = Some j \<Longrightarrow> live pid st = (\<not> terminal (status j))"
  by (simp add: live_def terminalSeen_def snapshot_def storeGet_def terminal_def)

lemma onJob_running:
  assumes "running pid s" and "\<And>j. \<not> terminal (status (f j))"
  shows "running pid (snd (onJob pid what f s))"
  using assms by (auto simp: onJob_def running_def jobStatus_def split: option.splits)

lemma pushLogs_running: "running pid s \<Longrightarrow> running pid (snd (pushLogs pid ms s))"
  unfolding pushLogs_def running_def jobStatus_def onJob_def
  by (auto split: option.splits)

lemma setConverting_running:
  "running pid s \<Longrightarrow> running pid (snd (setOnJob pid field (\<lambda>j. j\<lparr>status := Converting\<rparr>) s))"
  unfolding setOnJob_def by (rule onJob_running) (simp_all add: terminal_def)

lemma suspend_running: "running pid s \<Longrightarrow> running pid (suspend s)"
  by (auto simp: running_def suspend_def jobStatus_def live_job terminal_def split: option.splits)

lemma world_running [simp]: "running pid (s\<lparr>sys_world := w\<rparr>) = running pid s"
  by (simp add: running_def)

lemma ensureJob_Some: "s0 pid = Some j0 \<Longrightarrow> ensureJob pid s0 = s0"
  by (simp add: ensureJob_def storeGet_def)

lemma ensureJob_Undefined:
  "\<not> heldTruthy (storeGet s0 pid) \<Longrightarrow> \<exists>j. ensureJob pid s0 pid = Some j"
  by (simp add: ensureJob_def)

lemma ensureJob_job:
  "s0 pid = None \<longrightarrow> \<not> heldTruthy (storeGet s0 pid) \<Longrightarrow> \<exists>j. ensureJob pid s0 pid = Some j"
  by (cases "s0 pid") (auto simp: ensureJob_Some ensureJob_Undefined)

lemma safelyUpdate_status:
  "s0 pid = Some j0 \<Longrightarrow> \<exists>j. safelyUpdateConversionStatus pid st m err s0 pid = Some j \<and> status j = st"
  by (cases err)
     (auto simp: safelyUpdateConversionStatus_def safelyUpdateStatements_def ensureJob_Some updJob_def)

lemma finishFailed_ended: "running pid s \<Longrightarrow> ended pid (finishFailed pid m err s)"
proof -
  assume r: "running pid s"
  then obtain j0 where j0: "store s pid = Some j0"
    by (auto simp: running_def jobStatus_def split: option.splits)
  from safelyUpdate_status[where ?s0.0="store s" and pid=pid and ?j0.0=j0 and st=Failed and m=m and err=err] j0 r
  show ?thesis
    by (auto simp: running_def ended_def finishFailed_def jobStatus_def terminal_def)
qed

lemma resolveRepository_post:
  assumes "running pid s0"
  shows "phasePost pid (resolveRepository E pid s0)"
proof (cases "getProject E pid")
  case (Inl e)
  then show ?thesis using assms by (simp add: resolveRepository_def Let_def suspend_running)
next
  case (Inr proj)
  let ?s = "suspend s0"
  have s: "running pid ?s" using assms by (rule suspend_running)
  let ?r = "case (gitRepository proj, link proj) of
              (None, Some l) \<Rightarrow>
                if link_type l = ''github''
                then pushLogs pid [''Detected Git repository from link field: '' @ org l @ ''/'' @ link_repo l] ?s
                else (None, ?s)
            | _ \<Rightarrow> (None, ?s)"
  have r: "running pid (snd ?r)"
    using s by (auto simp: pushLogs_running split: option.splits)
  have "phasePost pid (thenDo ?r
               (\<lambda>s1.
                  case (case (gitRepository proj, link proj) of
                          (None, Some l) \<Rightarrow> if link_type l = ''github'' then Some (linkRepository l) else None
                        | (g, _) \<Rightarrow> g) of
                    None \<Rightarrow>
                      (Returned,
                       finishFailed pid ''No git repository found for this project''
                         (Some (Error (''Project doesn'' @ [CHR 0x27] @ ''t have a connected Git repository''))) s1)
                  | Some g \<Rightarrow>
                      thenDo (pushLogs pid [''Fetching project details for '' @ name proj @ ''...''] s1)
                        (\<lambda>s2. thenDo (pushLogs pid [''Repository: '' @ repo g] s2)
                                 (\<lambda>s3. (Next (proj, g), s3)))))"
  proof (rule thenDo_phasePost[OF r])
    fix s1 assume s1: "running pid s1"
    show "phasePost pid
           (case (case (gitRepository proj, link proj) of
                          (None, Some l) \<Rightarrow> if link_type l = ''github'' then Some (linkRepository l) else None
                        | (g, _) \<Rightarrow> g) of
                    None \<Rightarrow>
                      (Returned,
                       finishFailed pid ''No git repository found for this project''
                         (Some (Error (''Project doesn'' @ [CHR 0x27] @ ''t have a connected Git repository''))) s1)
                  | Some g \<Rightarrow>
                      thenDo (pushLogs pid [''Fetching project details for '' @ name proj @ ''...''] s1)
                        (\<lambda>s2. thenDo (pushLogs pid [''Repository: '' @ repo g] s2)
                                 (\<lambda>s3. (Next (proj, g), s3))))"
    proof (cases "case (gitRepository proj, link proj) of
                          (None, Some l) \<Rightarrow> if link_type l = ''github'' then Some (linkRepository l) else None
                        | (g, _) \<Rightarrow> g")
      case None
      then show ?thesis using s1 by (simp add: finishFailed_ended)
    next
      case (Some g)
      have "phasePost pid (thenDo (pushLogs pid [''Fetching project details for '' @ name proj @ ''...''] s1)
                        (\<lambda>s2. thenDo (pushLogs pid [''Repository: '' @ repo g] s2)
                                 (\<lambda>s3. (Next (proj, g), s3))))"
        by (intro thenDo_phasePost pushLogs_running s1) simp_all
      then show ?thesis using Some by simp
    qed
  qed
  then show ?thesis using Inr by (simp add: resolveRepository_def Let_def)
qed

lemma acquire_post:
  assumes "running pid s0"
  shows "phasePost pid (acquire E pid g s0)"
proof -
  let ?root = "case truthy_str (LOCAL_STORAGE_PATH E) of Some p \<Rightarrow> p | None \<Rightarrow> ''./tmp/projects''"
  let ?cr = "\<lambda>s3. cloneRepository E
      \<lparr>repoUrl = formatRepoUrl g, projectId = pid, branch = Some (defaultBranch g), storagePath = ?root\<rparr>
      (sys_world s3)"
  let ?r = "if needsFormatting g
            then pushLogs pid [''Using formatted GitHub URL: '' @ formatRepoUrl g] s0
            else (None, s0)"
  have r: "running pid (snd ?r)" using assms by (simp add: pushLogs_running)
  have "phasePost pid (thenDo ?r
           (\<lambda>s1. thenDo (pushLogs pid [''Cloning repository from '' @ formatRepoUrl g @ ''...''] s1)
             (\<lambda>s2.
                let s3 = suspend s2;
                    (cloneResult, w') = ?cr s3;
                    s4 = s3\<lparr>sys_world := w'\<rparr>
                in if \<not> clone_success cloneResult
                   then (Returned,
                         finishFailed pid (''Failed to clone repository: '' @ clone_message cloneResult)
                           (clone_error cloneResult) s4)
                   else
                     thenDo (pushLogs pid [clone_message cloneResult] s4)
                       (\<lambda>s5. thenDo (setOnJob pid ''status'' (\<lambda>j. j\<lparr>status := Converting\<rparr>) s5)
                         (\<lambda>s6. (Next (clone_path cloneResult), s6))))))"
  proof (intro thenDo_phasePost r pushLogs_running)
    fix s1 s2 assume "running pid s1" and s2: "running pid s2"
    obtain cr w' where cr: "?cr (suspend s2) = (cr, w')" by fastforce
    have s4: "running pid (suspend s2\<lparr>sys_world := w'\<rparr>)" using s2 by (simp add: suspend_running)
    show "phasePost pid
            (let s3 = suspend s2;
                    (cloneResult, w') = ?cr s3;
                    s4 = s3\<lparr>sys_world := w'\<rparr>
             in if \<not> clone_success cloneResult
                   then (Returned,
                         finishFailed pid (''Failed to clone repository: '' @ clone_message cloneResult)
                           (clone_error cloneResult) s4)
                   else
                     thenDo (pushLogs pid [clone_message cloneResult] s4)
                       (\<lambda>s5. thenDo (setOnJob pid ''status'' (\<lambda>j. j\<lparr>status := Converting\<rparr>) s5)
                         (\<lambda>s6. (Next (clone_path cloneResult), s6))))"
    proof (cases "clone_success cr")
      case False
      then show ?thesis using cr s4 by (simp add: Let_def finishFailed_ended)
    next
      case True
      have "phasePost pid (thenDo (pushLogs pid [clone_message cr] (suspend s2\<lparr>sys_world := w'\<rparr>))
                       (\<lambda>s5. thenDo (setOnJob pid ''status'' (\<lambda>j. j\<lparr>status := Converting\<rparr>) s5)
                         (\<lambda>s6. (Next (clone_path cr), s6))))"
        by (intro thenDo_phasePost pushLogs_running setConverting_running s4) simp_all
      then show ?thesis using True cr by (simp add: Let_def)
    qed
  qed
  then show ?thesis by (simp add: acquire_def Let_def)
qed

lemma branchIfRequested_post:
  assumes "running pid s0"
  shows "phasePost pid (branchIfRequested E pid p opt s0)"
proof (cases "req_createBranch opt \<and> req_branchName opt \<noteq> []")
  case False
  then show ?thesis using assms by (auto simp: branchIfRequested_def)
next
  case True
  have "phasePost pid (thenDo (pushLogs pid [''Creating branch: '' @ req_branchName opt @ ''...''] s0)
          (\<lambda>s1.
             let s2 = suspend s1;
                 (branchCreated, w') = createBranch E p (req_branchName opt) (sys_world s2);
                 s3 = s2\<lparr>sys_world := w'\<rparr>
             in thenDo
                  (pushLogs pid
                     [if \<not> branchCreated
                      then ''Warning: Failed to create branch '' @ req_branchName opt @
                           ''. Continuing on current branch.''
                      else ''Created branch: '' @ req_branchName opt] s3)
                  (\<lambda>s4. (Next (), s4))))"
  proof (intro thenDo_phasePost pushLogs_running assms)
    fix s1 assume s1: "running pid s1"
    obtain b w' where b: "createBranch E p (req_branchName opt) (sys_world (suspend s1)) = (b, w')" by fastforce
    have s3: "running pid (suspend s1\<lparr>sys_world := w'\<rparr>)" using s1 by (simp add: suspend_running)
    have "phasePost pid (thenDo
                  (pushLogs pid
                     [if \<not> b
                      then ''Warning: Failed to create branch '' @ req_branchName opt @
                           ''. Continuing on current branch.''
                      else ''Created branch: '' @ req_branchName opt] (suspend s1\<lparr>sys_world := w'\<rparr>))
                  (\<lambda>s4. (Next (), s4)))"
      by (intro thenDo_phasePost pushLogs_running s3) simp_all
    then show "phasePost pid
           (let s2 = suspend s1;
                 (branchCreated, w') = createBranch E p (req_branchName opt) (sys_world s2);
                 s3 = s2\<lparr>sys_world := w'\<rparr>
             in thenDo
                  (pushLogs pid
                     [if \<not> branchCreated
                      then ''Warning: Failed to create branch '' @ req_branchName opt @
                           ''. Continuing on current branch.''
                      else ''Created branch: '' @ req_branchName opt] s3)
                  (\<lambda>s4. (Next (), s4)))"
      using b by (simp add: Let_def)
  qed
  then show ?thesis using True by (simp add: branchIfRequested_def)
qed

lemma finalize_post:
  assumes "running pid s"
  shows "bodyPost pid (finalize pid r s)"
  using assms
  by (cases "store s pid")
     (auto simp: finalize_def thenDo_def setOnJob_def onJob_def finalStatements_def running_def ended_def
        jobStatus_def terminal_def)

lemma convert_post:
  assumes "running pid s0"
  shows "bodyPost pid (convert E pid proj p opt s0)"
  unfolding convert_def
proof (intro thenDo_bodyPost pushLogs_running assms)
  fix s1 assume s1: "running pid s1"
  obtain r w' where r: "run E (pipelineOptions p proj opt) (sys_world (suspend s1)) = (r, w')" by fastforce
  have s3: "running pid (suspend s1\<lparr>sys_world := w'\<rparr>)" using s1 by (simp add: suspend_running)
  have "bodyPost pid (thenDo (pushLogs pid (logs r) (suspend s1\<lparr>sys_world := w'\<rparr>))
               (\<lambda>s4.
                  if success r \<and> req_commitAndPush opt
                  then
                    thenDo (pushLogs pid [''Committing and pushing changes...''] s4)
                      (\<lambda>s5.
                         let s6 = suspend s5;
                             (commitResult, w'') =
                               commitAndPush E p ''Convert to @opennextjs/cloudflare'' (sys_world s6);
                             s7 = s6\<lparr>sys_world := w''\<rparr>
                         in thenDo
                              (pushLogs pid
                                 [if commitResult then ''Changes committed and pushed successfully''
                                  else ''Warning: Failed to commit and push changes''] s7)
                              (finalize pid r))
                  else finalize pid r s4))"
  proof (intro thenDo_bodyPost pushLogs_running s3)
    fix s4 assume s4: "running pid s4"
    show "bodyPost pid
            (if success r \<and> req_commitAndPush opt
                  then
                    thenDo (pushLogs pid [''Committing and pushing changes...''] s4)
                      (\<lambda>s5.
                         let s6 = suspend s5;
                             (commitResult, w'') =
                               commitAndPush E p ''Convert to @opennextjs/cloudflare'' (sys_world s6);
                             s7 = s6\<lparr>sys_world := w''\<rparr>
                         in thenDo
                              (pushLogs pid
                                 [if commitResult then ''Changes committed and pushed successfully''
                                  else ''Warning: Failed to commit and push changes''] s7)
                              (finalize pid r))
                  else finalize pid r s4)"
    proof (cases "success r \<and> req_commitAndPush opt")
      case False
      then show ?thesis using finalize_post[OF s4] by auto
    next
      case True
      have "bodyPost pid (thenDo (pushLogs pid [''Committing and pushing changes...''] s4)
                      (\<lambda>s5.
                         let s6 = suspend s5;
                             (commitResult, w'') =
                               commitAndPush E p ''Convert to @opennextjs/cloudflare'' (sys_world s6);
                             s7 = s6\<lparr>sys_world := w''\<rparr>
                         in thenDo
                              (pushLogs pid
                                 [if commitResult then ''Changes committed and pushed successfully''
                                  else ''Warning: Failed to commit and push changes''] s7)
                              (finalize pid r)))"
      proof (intro thenDo_bodyPost pushLogs_running s4)
        fix s5 assume s5: "running pid s5"
        obtain c w'' where c: "commitAndPush E p ''Convert to @opennextjs/cloudflare'' (sys_world (suspend s5)) = (c, w'')"
          by fastforce
        have s7: "running pid (suspend s5\<lparr>sys_world := w''\<rparr>)" using s5 by (simp add: suspend_running)
        have "bodyPost pid (thenDo
                              (pushLogs pid
                                 [if c then ''Changes committed and pushed successfully''
                                  else ''Warning: Failed to commit and push changes''] (suspend s5\<lparr>sys_world := w''\<rparr>))
                              (finalize pid r))"
          by (intro thenDo_bodyPost pushLogs_running s7 finalize_post)
        then show "bodyPost pid
            (let s6 = suspend s5;
                             (commitResult, w'') =
                               commitAndPush E p ''Convert to @opennextjs/cloudflare'' (sys_world s6);
                             s7 = s6\<lparr>sys_world := w''\<rparr>
                         in thenDo
                              (pushLogs pid
                                 [if commitResult then ''Changes committed and pushed successfully''
                                  else ''Warning: Failed to commit and push changes''] s7)
                              (finalize pid r))"
          using c by (simp add: Let_def)
      qed
      then show ?thesis using True by simp
    qed
  qed
  then show "bodyPost pid
          (let s2 = suspend s1;
              (r, w') = run E (pipelineOptions p proj opt) (sys_world s2);
              s3 = s2\<lparr>sys_world := w'\<rparr>
          in thenDo (pushLogs pid (logs r) s3)
               (\<lambda>s4.
                  if success r \<and> req_commitAndPush opt
                  then
                    thenDo (pushLogs pid [''Committing and pushing changes...''] s4)
                      (\<lambda>s5.
                         let s6 = suspend s5;
                             (commitResult, w'') =
                               commitAndPush E p ''Convert to @opennextjs/cloudflare'' (sys_world s6);
                             s7 = s6\<lparr>sys_world := w''\<rparr>
                         in thenDo
                              (pushLogs pid
                                 [if commitResult then ''Changes committed and pushed successfully''
                                  else ''Warning: Failed to commit and push changes''] s7)
                              (finalize pid r))
                  else finalize pid r s4))"
    using r by (simp add: Let_def)
qed

lemma branchAndConvert_post:
  assumes "running pid s"
  shows "bodyPost pid (branchAndConvert E pid proj p options s)"
proof (cases options)
  case None
  then show ?thesis using assms by (simp add: branchAndConvert_def)
next
  case (Some opt)
  obtain out s1 where b: "branchIfRequested E pid p opt s = (out, s1)" by fastforce
  have post: "phasePost pid (out, s1)" using branchIfRequested_post[OF assms, of E p opt] b by simp
  show ?thesis
  proof (cases out)
    case (Next u)
    then show ?thesis using Some b post convert_post[of pid s1 E proj p opt]
      by (simp add: branchAndConvert_def)
  qed (use Some b post in \<open>simp_all add: branchAndConvert_def\<close>)
qed

lemma startConversionBody_post:
  assumes "running pid s0"
  shows "bodyPost pid (startConversionBody E pid options s0)"
proof -
  obtain out1 s1 where a: "resolveRepository E pid s0 = (out1, s1)" by fastforce
  have p1: "phasePost pid (out1, s1)" using resolveRepository_post[OF assms, of E] a by simp
  show ?thesis
  proof (cases out1)
    case (Next pg)
    obtain proj g where pg: "pg = (proj, g)" by fastforce
    obtain out2 s2 where b: "acquire E pid g s1 = (out2, s2)" by fastforce
    have s1: "running pid s1" using p1 Next by simp
    have p2: "phasePost pid (out2, s2)" using acquire_post[OF s1, of E g] b by simp
    show ?thesis
    proof (cases out2)
      case n2: (Next p)
      then show ?thesis
        using a Next pg b p2 branchAndConvert_post[of pid s2 E proj p options]
        by (simp add: startConversionBody_def)
    qed (use a Next pg b p2 in \<open>simp_all add: startConversionBody_def\<close>)
  qed (use a p1 in \<open>simp_all add: startConversionBody_def\<close>)
qed

lemma startConversion_ended:
  assumes "running pid s0"
  shows "ended pid (startConversion E pid options s0)"
proof -
  obtain out s where b: "startConversionBody E pid options s0 = (out, s)" by fastforce
  have "bodyPost pid (out, s)" using startConversionBody_post[OF assms, of E options] b by simp
  then show ?thesis using b
    by (cases out) (simp_all add: startConversion_def catchUnexpected_def finishFailed_ended)
qed

lemma sendUpdate_sent:
  "sendUpdate pid polls = (sent, closed) \<Longrightarrow>
   list_all (\<lambda>v. \<not> terminalSeen v) (butlast sent) \<and>
   (closed \<longrightarrow> sent \<noteq> [] \<and> terminalSeen (last sent)) \<and>
   (\<not> closed \<longrightarrow> list_all (\<lambda>v. \<not> terminalSeen v) sent \<and> length sent = length polls) \<and>
   length sent \<le> length polls"
proof (induction polls arbitrary: sent closed)
  case Nil
  then show ?case by simp
next
  case (Cons st later)
  show ?case
  proof (cases "terminalSeen (snapshot pid st)")
    case True
    with Cons.prems show ?thesis by (auto simp: terminalSeen_def)
  next
    case False
    obtain sent' closed' where r: "sendUpdate pid later = (sent', closed')" by fastforce
    with Cons.prems False have eq: "sent = snapshot pid st # sent'" "closed = closed'"
      by (auto simp: terminalSeen_def)
    from Cons.IH[OF r] False eq show ?thesis by (cases sent') auto
  qed
qed

lemma statesAfter_last:
  "stmts \<noteq> [] \<Longrightarrow> last (statesAfter stmts s) = fold (\<lambda>stmt s. stmt s) stmts s"
proof (induction stmts arbitrary: s)
  case Nil
  then show ?case by simp
next
  case (Cons stmt stmts)
  then show ?case by (cases stmts) simp_all
qed

lemma updJob_status:
  "(\<And>j. status (f j) = status j) \<Longrightarrow> \<exists>j. s pid = Some j \<and> status j = st \<Longrightarrow>
   \<exists>j. updJob pid f s pid = Some j \<and> status j = st"
  by (auto simp: updJob_def)

lemma safelyUpdate_statement_states:
  assumes "s0 pid = None \<longrightarrow> \<not> heldTruthy (storeGet s0 pid)"
  shows "list_all (\<lambda>s. jobStatus pid s = Some st)
     (tl (statesAfter (safelyUpdateStatements pid st m err) s0))"
proof -
  let ?s1 = "ensureJob pid s0"
  obtain j where j: "?s1 pid = Some j" using ensureJob_job[OF assms] by blast
  let ?s2 = "updJob pid (\<lambda>j. j\<lparr>status := st\<rparr>) ?s1"
  have s2: "\<exists>j. ?s2 pid = Some j \<and> status j = st" using j by (simp add: updJob_def)
  let ?s3 = "updJob pid (\<lambda>j. j\<lparr>job_message := Some m\<rparr>) ?s2"
  have s3: "\<exists>j. ?s3 pid = Some j \<and> status j = st" by (rule updJob_status) (simp, rule s2)
  let ?s4 = "updJob pid (\<lambda>j. j\<lparr>job_logs := job_logs j @ [m]\<rparr>) ?s3"
  have s4: "\<exists>j. ?s4 pid = Some j \<and> status j = st" by (rule updJob_status) (simp, rule s3)
  show ?thesis
  proof (cases err)
    case None
    then show ?thesis using s2 s3 s4 by (simp add: safelyUpdateStatements_def jobStatus_def)
  next
    case (Some e)
    let ?s5 = "updJob pid (\<lambda>j. j\<lparr>job_logs := job_logs j @ [''Error details: '' @ messageOrString e]\<rparr>) ?s4"
    have s5: "\<exists>j. ?s5 pid = Some j \<and> status j = st" by (rule updJob_status) (simp, rule s4)
    let ?s6 = "updJob pid (\<lambda>j. j\<lparr>job_error := Some (messageOrString e)\<rparr>) ?s5"
    have s6: "\<exists>j. ?s6 pid = Some j \<and> status j = st" by (rule updJob_status) (simp, rule s5)
    show ?thesis using Some s2 s3 s4 s5 s6 by (simp add: safelyUpdateStatements_def jobStatus_def)
  qed
qed

text \<open>
  Claim C7, as stated: once the status of a job is terminal, nothing more is appended
  to its log and no other field changes. It fails inside \<open>safelyUpdateConversionStatus\<close>:
  line 67 sets the status, and the message, the log lines and the error are written by
  the statements after it. Here the second statement has left the status \<open>failed\<close> and
  the log with its one initial line; the call ends with two more lines in the log.
\<close>

theorem log_appended_after_terminal_status:
  "map_option status
     ((statesAfter (safelyUpdateStatements ''prj_1'' Failed ''No git repository found for this project''
                      (Some (Error ''no repository''))) (store startedSys) ! 1) ''prj_1'') = Some Failed \<and>
   map_option job_logs
     ((statesAfter (safelyUpdateStatements ''prj_1'' Failed ''No git repository found for this project''
                      (Some (Error ''no repository''))) (store startedSys) ! 1) ''prj_1'') =
     Some [''Initializing conversion process...''] \<and>
   map_option job_logs
     (safelyUpdateConversionStatus ''prj_1'' Failed ''No git repository found for this project''
        (Some (Error ''no repository'')) (store startedSys) ''prj_1'') =
     Some [''Initializing conversion process...'', ''No git repository found for this project'',
           ''Error details: no repository'']"
  by code_simp

text \<open>
  Claim C7, amended: a terminal status is only written in the last synchronous block of
  a run. For a run of \<open>startConversion\<close> on a job that is not terminal, no store that
  a reader can see during the run (at an \<open>await\<close>) shows a terminal status, and the run
  ends with the job \<open>success\<close> or \<open>failed\<close>. \<open>safelyUpdateConversionStatus\<close> sets the
  status in its second statement; the statements after it write the message, the log
  lines and the error and keep the status. A subscriber of the feed gets values without
  a terminal status until the first one that has it; that one is the last, and the
  stream is closed exactly then.
\<close>

theorem terminal_status_only_at_the_end:
  "(store s0 pid = Some j0 \<and> \<not> terminal (status j0) \<and> list_all (live pid) (seen s0) \<longrightarrow>
      list_all (live pid) (seen (startConversion E pid options s0)) \<and>
      (jobStatus pid (store (startConversion E pid options s0)) = Some Success \<or>
       jobStatus pid (store (startConversion E pid options s0)) = Some Failed)) \<and>
   ((s1 pid = None \<longrightarrow> \<not> heldTruthy (storeGet s1 pid)) \<longrightarrow>
      list_all (\<lambda>s. jobStatus pid s = Some st)
        (tl (statesAfter (safelyUpdateStatements pid st m err) s1))) \<and>
   last (statesAfter (safelyUpdateStatements pid st m err) s1) = safelyUpdateConversionStatus pid st m err s1 \<and>
   (sendUpdate pid polls = (sent, closed) \<longrightarrow>
      list_all (\<lambda>v. \<not> terminalSeen v) (butlast sent) \<and>
      (closed \<longrightarrow> sent \<noteq> [] \<and> terminalSeen (last sent)) \<and>
      (\<not> closed \<longrightarrow> list_all (\<lambda>v. \<not> terminalSeen v) sent))"
proof (intro conjI impI)
  assume "store s0 pid = Some j0 \<and> \<not> terminal (status j0) \<and> list_all (live pid) (seen s0)"
  then have "running pid s0" by (simp add: running_def jobStatus_def)
  then have e: "ended pid (startConversion E pid options s0)" by (rule startConversion_ended)
  then show "list_all (live pid) (seen (startConversion E pid options s0))" by (simp add: ended_def)
  from e show "jobStatus pid (store (startConversion E pid options s0)) = Some Success \<or>
       jobStatus pid (store (startConversion E pid options s0)) = Some Failed"
    by (auto simp: ended_def terminal_def split: option.splits)
next
  assume "s1 pid = None \<longrightarrow> \<not> heldTruthy (storeGet s1 pid)"
  then show "list_all (\<lambda>s. jobStatus pid s = Some st)
     (tl (statesAfter (safelyUpdateStatements pid st m err) s1))"
    by (rule safelyUpdate_statement_states)
next
  show "last (statesAfter (safelyUpdateStatements pid st m err) s1) = safelyUpdateConversionStatus pid st m err s1"
    unfolding safelyUpdateConversionStatus_def
    by (rule statesAfter_last) (simp add: safelyUpdateStatements_def)
next
  assume a: "sendUpdate pid polls = (sent, closed)"
  from sendUpdate_sent[OF a] show "list_all (\<lambda>v. \<not> terminalSeen v) (butlast sent)" by simp
  { assume closed
    with sendUpdate_sent[OF a] show "sent \<noteq> []" "terminalSeen (last sent)" by simp_all }
  { assume "\<not> closed"
    with sendUpdate_sent[OF a] show "list_all (\<lambda>v. \<not> terminalSeen v) sent" by simp }
qed

theorem terminal_status_only_at_the_end_witness:
  "list_all (live ''prj_1'') (seen (startConversion quietEnv ''prj_1'' (Some someOptions) startedSys)) \<and>
   jobStatus ''prj_1'' (store (startConversion quietEnv ''prj_1'' (Some someOptions) startedSys)) = Some Success \<and>
   length (seen (startConversion quietEnv ''prj_1'' (Some someOptions) startedSys)) = 5 \<and>
   sendUpdate ''prj_1'' [store startedSys, store (startConversion quietEnv ''prj_1'' (Some someOptions) startedSys),
                        store startedSys] =
     ([JobObject initialJob,
       snapshot ''prj_1'' (store (startConversion quietEnv ''prj_1'' (Some someOptions) startedSys))],
      True)"
proof -
  let ?final = "startConversion quietEnv ''prj_1'' (Some someOptions) startedSys"
  have a: "store startedSys ''prj_1'' = Some initialJob \<and> \<not> terminal (status initialJob) \<and>
           list_all (live ''prj_1'') (seen startedSys)"
    by code_simp
  from terminal_status_only_at_the_end[where pid="''prj_1''" and ?s0.0=startedSys and E=quietEnv
      and options="Some someOptions" and ?j0.0=initialJob] a
  have b: "list_all (live ''prj_1'') (seen ?final) \<and>
           (jobStatus ''prj_1'' (store ?final) = Some Success \<or> jobStatus ''prj_1'' (store ?final) = Some Failed)"
    by blast
  have c: "length (seen ?final) = 5" by code_simp
  have s: "jobStatus ''prj_1'' (store ?final) = Some Success" by code_simp
  have d: "snapshot ''prj_1'' (store startedSys) = JobObject initialJob"
    by (simp add: snapshot_def storeGet_def startedSys_def)
  have e: "status initialJob = Cloning" by (simp add: initialJob_def)
  obtain jf where jf: "store ?final ''prj_1'' = Some jf" "status jf = Success"
    using s by (auto simp: jobStatus_def)
  have f: "snapshot ''prj_1'' (store ?final) = JobObject jf"
    using jf by (simp add: snapshot_def storeGet_def)
  show ?thesis using b c s d e f jf by (simp add: terminalSeen_def)
qed


section \<open>A directory that is no repository\<close>

lemma rmSync_gone: "rmSync E p w = (None, w1) \<Longrightarrow> \<not> existsSync p w1"
  by (auto simp: rmSync_def existsSync_def under_def split: option.splits prod.splits)

lemma cloneFresh_success:
  "clone_success (fst (cloneFresh E opts w1)) \<Longrightarrow>
   git_clone E (cleanRepoUrl (repoUrl opts)) (projectDir opts) (truthy_str (branch opts)) w1 =
     (None, snd (cloneFresh E opts w1))"
  by (auto simp: cloneFresh_def cloneFailure_def Let_def split: prod.splits option.splits)

lemma removeAndRetry_cases:
  "(\<exists>w1. \<not> existsSync (projectDir opts) w1 \<and>
          (case removeAndRetry E opts w0 of (Some r, w') \<Rightarrow> (r, w') | (None, w') \<Rightarrow> cloneFresh E opts w') =
            cloneFresh E opts w1) \<or>
   (\<exists>e w1 w2 r. rmSync E (projectDir opts) w1 = (Some e, w2) \<and>
          (case removeAndRetry E opts w0 of (Some r, w') \<Rightarrow> (r, w') | (None, w') \<Rightarrow> cloneFresh E opts w') = (r, w2) \<and>
          \<not> clone_success r \<and>
          clone_message r = ''Failed to prepare directory for cloning: '' @ messageOrUnknown e)"
proof -
  obtain r w1 where rm: "rmSync E (projectDir opts) w0 = (r, w1)" by fastforce
  show ?thesis
  proof (cases r)
    case None
    with rm rmSync_gone[of E "projectDir opts" w0 w1] show ?thesis
      by (intro disjI1 exI[of _ w1]) (simp add: removeAndRetry_def)
  next
    case (Some e)
    with rm show ?thesis
      by (intro disjI2 exI[of _ e] exI[of _ w0] exI[of _ w1]) (simp add: removeAndRetry_def)
  qed
qed

lemma cloneRepository_existing:
  "existsSync (storagePath opts) w \<Longrightarrow> existsSync (projectDir opts) w \<Longrightarrow>
   cloneRepository E opts w =
     (case updateExisting E opts w of (Some r, w') \<Rightarrow> (r, w') | (None, w') \<Rightarrow> cloneFresh E opts w')"
  by (simp add: cloneRepository_def cloneInto_def)

lemma replaced_cases:
  assumes "existsSync (storagePath opts) w" and "existsSync (projectDir opts) w"
    and "git_checkIsRepo E (projectDir opts) w \<noteq> Inr True"
  shows "(\<exists>w1. \<not> existsSync (projectDir opts) w1 \<and> cloneRepository E opts w = cloneFresh E opts w1) \<or>
         (\<exists>e w1 w2 r. rmSync E (projectDir opts) w1 = (Some e, w2) \<and>
                     cloneRepository E opts w = (r, w2) \<and> \<not> clone_success r \<and>
                     clone_message r = ''Failed to prepare directory for cloning: '' @ messageOrUnknown e)"
proof -
  let ?d = "projectDir opts"
  note ci = cloneRepository_existing[OF assms(1,2), of E]
  show ?thesis
  proof (cases "git_checkIsRepo E ?d w")
    case (Inl e)
    then have "updateExisting E opts w = removeAndRetry E opts w" by (simp add: updateExisting_def)
    with ci removeAndRetry_cases[of opts E w] show ?thesis by simp
  next
    case (Inr b)
    with assms(3) have b: "\<not> b" by auto
    obtain r w1 where rm: "rmSync E ?d w = (r, w1)" by fastforce
    show ?thesis
    proof (cases r)
      case None
      with rm Inr b have "updateExisting E opts w = (None, w1)" by (simp add: updateExisting_def)
      with ci rmSync_gone[of E ?d w w1] rm None show ?thesis by auto
    next
      case (Some e)
      with rm Inr b have "updateExisting E opts w = removeAndRetry E opts w1" by (simp add: updateExisting_def)
      with ci removeAndRetry_cases[of opts E w1] show ?thesis by simp
    qed
  qed
qed

lemma replaced_first:
  assumes "existsSync (storagePath opts) w" and "existsSync (projectDir opts) w"
    and "git_checkIsRepo E (projectDir opts) w \<noteq> Inr True"
    and "rmSync E (projectDir opts) w = (None, w')"
  shows "\<not> existsSync (projectDir opts) w' \<and> cloneRepository E opts w = cloneFresh E opts w'"
proof -
  have "updateExisting E opts w = (None, w')"
    using assms(3,4) by (cases "git_checkIsRepo E (projectDir opts) w") (auto simp: updateExisting_def removeAndRetry_def)
  then show ?thesis
    using cloneRepository_existing[OF assms(1,2), of E] rmSync_gone[OF assms(4)] by simp
qed

lemma replaced_retry:
  assumes "existsSync (storagePath opts) w" and "existsSync (projectDir opts) w"
    and "git_checkIsRepo E (projectDir opts) w = Inr False"
    and "rmSync E (projectDir opts) w = (Some e, w1)"
    and "rmSync E (projectDir opts) w1 = (None, w2)"
  shows "\<not> existsSync (projectDir opts) w2 \<and> cloneRepository E opts w = cloneFresh E opts w2"
proof -
  have "updateExisting E opts w = (None, w2)"
    using assms(3,4,5) by (simp add: updateExisting_def removeAndRetry_def)
  then show ?thesis
    using cloneRepository_existing[OF assms(1,2), of E] rmSync_gone[OF assms(5)] by simp
qed

lemma replaced_success:
  assumes "existsSync (storagePath opts) w" and "existsSync (projectDir opts) w"
    and "git_checkIsRepo E (projectDir opts) w \<noteq> Inr True"
    and "clone_success (fst (cloneRepository E opts w))"
  shows "\<exists>w1. \<not> existsSync (projectDir opts) w1 \<and>
              git_clone E (cleanRepoUrl (repoUrl opts)) (projectDir opts) (truthy_str (branch opts)) w1 =
                (None, snd (cloneRepository E opts w))"
proof -
  from replaced_cases[OF assms(1,2,3)] assms(4)
  obtain w1 where w1: "\<not> existsSync (projectDir opts) w1" "cloneRepository E opts w = cloneFresh E opts w1"
    by auto
  from assms(4) w1(2) cloneFresh_success[of E opts w1] w1(1) show ?thesis by auto
qed

text \<open>
  Claim C4, as stated: when the removal of a directory that is no repository fails, the
  function returns \<open>success = false\<close>. The removal of line 83 stands inside the \<open>try\<close>
  whose \<open>catch\<close> (line 85) removes the directory again: here the first removal throws,
  the second one succeeds, and the function returns \<open>success = true\<close>.
\<close>

theorem removal_failure_followed_by_clone:
  "existsSync (projectDir strayOptions) strayDirectory \<and>
   git_checkIsRepo busyEnv (projectDir strayOptions) strayDirectory = Inr False \<and>
   fst (rmSync busyEnv (projectDir strayOptions) strayDirectory) = Some (Error ''EBUSY: resource busy or locked'') \<and>
   clone_success (fst (cloneRepository busyEnv strayOptions strayDirectory)) \<and>
   clone_message (fst (cloneRepository busyEnv strayOptions strayDirectory)) = ''Repository cloned successfully.''"
  by code_simp

text \<open>
  Claim C4, amended: when the storage directory and the project's directory exist and
  the latter is no repository (or the test throws), the function either clones afresh
  into a world in which the directory is gone, or returns \<open>success = false\<close> with the
  message of a removal that failed. A removal that succeeds is followed by the clone;
  for a directory found to be no repository a removal that fails is tried once more,
  and the clone follows when the second one succeeds. A result with \<open>success = true\<close>
  is that of a \<open>git clone\<close> that succeeded where the directory was gone; so where a
  \<open>git clone\<close> that succeeds leaves a repository, the path is a repository afterwards.
\<close>

theorem non_repository_directory_is_replaced:
  "existsSync (storagePath opts) w \<and> existsSync (projectDir opts) w \<and>
   git_checkIsRepo E (projectDir opts) w \<noteq> Inr True \<longrightarrow>
     ((\<exists>w1. \<not> existsSync (projectDir opts) w1 \<and> cloneRepository E opts w = cloneFresh E opts w1) \<or>
      (\<exists>e w1 w2 r. rmSync E (projectDir opts) w1 = (Some e, w2) \<and>
                  cloneRepository E opts w = (r, w2) \<and> \<not> clone_success r \<and>
                  clone_message r = ''Failed to prepare directory for cloning: '' @ messageOrUnknown e)) \<and>
     (rmSync E (projectDir opts) w = (None, w') \<longrightarrow>
        \<not> existsSync (projectDir opts) w' \<and> cloneRepository E opts w = cloneFresh E opts w') \<and>
     (git_checkIsRepo E (projectDir opts) w = Inr False \<and>
      rmSync E (projectDir opts) w = (Some e1, w1) \<and> rmSync E (projectDir opts) w1 = (None, w2) \<longrightarrow>
        \<not> existsSync (projectDir opts) w2 \<and> cloneRepository E opts w = cloneFresh E opts w2) \<and>
     (clone_success (fst (cloneRepository E opts w)) \<longrightarrow>
        (\<exists>w3. \<not> existsSync (projectDir opts) w3 \<and>
              git_clone E (cleanRepoUrl (repoUrl opts)) (projectDir opts) (truthy_str (branch opts)) w3 =
                (None, snd (cloneRepository E opts w)))) \<and>
     ((\<forall>w3 w4. git_clone E (cleanRepoUrl (repoUrl opts)) (projectDir opts) (truthy_str (branch opts)) w3 = (None, w4) \<longrightarrow>
                git_checkIsRepo E (projectDir opts) w4 = Inr True) \<and>
      clone_success (fst (cloneRepository E opts w)) \<longrightarrow>
        git_checkIsRepo E (projectDir opts) (snd (cloneRepository E opts w)) = Inr True)"
proof (intro impI)
  let ?d = "projectDir opts"
  assume h: "existsSync (storagePath opts) w \<and> existsSync ?d w \<and> git_checkIsRepo E ?d w \<noteq> Inr True"
  then have h1: "existsSync (storagePath opts) w" and h2: "existsSync ?d w"
    and h3: "git_checkIsRepo E ?d w \<noteq> Inr True" by simp_all
  note c = replaced_cases[OF h1 h2 h3]
  have r: "rmSync E ?d w = (None, w') \<longrightarrow>
        \<not> existsSync ?d w' \<and> cloneRepository E opts w = cloneFresh E opts w'"
    using replaced_first[OF h1 h2 h3] by blast
  have t: "git_checkIsRepo E ?d w = Inr False \<and>
      rmSync E ?d w = (Some e1, w1) \<and> rmSync E ?d w1 = (None, w2) \<longrightarrow>
        \<not> existsSync ?d w2 \<and> cloneRepository E opts w = cloneFresh E opts w2"
    using replaced_retry[OF h1 h2] by blast
  have s: "clone_success (fst (cloneRepository E opts w)) \<longrightarrow>
        (\<exists>w3. \<not> existsSync ?d w3 \<and>
              git_clone E (cleanRepoUrl (repoUrl opts)) ?d (truthy_str (branch opts)) w3 =
                (None, snd (cloneRepository E opts w)))"
    using replaced_success[OF h1 h2 h3] by blast
  have g: "(\<forall>w3 w4. git_clone E (cleanRepoUrl (repoUrl opts)) ?d (truthy_str (branch opts)) w3 = (None, w4) \<longrightarrow>
                git_checkIsRepo E ?d w4 = Inr True) \<and>
      clone_success (fst (cloneRepository E opts w)) \<longrightarrow>
        git_checkIsRepo E ?d (snd (cloneRepository E opts w)) = Inr True"
    using s by blast
  from c r t s g
  show "((\<exists>w1. \<not> existsSync ?d w1 \<and> cloneRepository E opts w = cloneFresh E opts w1) \<or>
      (\<exists>e w1 w2 r. rmSync E ?d w1 = (Some e, w2) \<and>
                  cloneRepository E opts w = (r, w2) \<and> \<not> clone_success r \<and>
                  clone_message r = ''Failed to prepare directory for cloning: '' @ messageOrUnknown e)) \<and>
     (rmSync E ?d w = (None, w') \<longrightarrow>
        \<not> existsSync ?d w' \<and> cloneRepository E opts w = cloneFresh E opts w') \<and>
     (git_checkIsRepo E ?d w = Inr False \<and>
      rmSync E ?d w = (Some e1, w1) \<and> rmSync E ?d w1 = (None, w2) \<longrightarrow>
        \<not> existsSync ?d w2 \<and> cloneRepository E opts w = cloneFresh E opts w2) \<and>
     (clone_success (fst (cloneRepository E opts w)) \<longrightarrow>
        (\<exists>w3. \<not> existsSync ?d w3 \<and>
              git_clone E (cleanRepoUrl (repoUrl opts)) ?d (truthy_str (branch opts)) w3 =
                (None, snd (cloneRepository E opts w)))) \<and>
     ((\<forall>w3 w4. git_clone E (cleanRepoUrl (repoUrl opts)) ?d (truthy_str (branch opts)) w3 = (None, w4) \<longrightarrow>
                git_checkIsRepo E ?d w4 = Inr True) \<and>
      clone_success (fst (cloneRepository E opts w)) \<longrightarrow>
        git_checkIsRepo E ?d (snd (cloneRepository E opts w)) = Inr True)"
    by (intro conjI)
qed

theorem non_repository_directory_is_replaced_witness:
  "clone_success (fst (cloneRepository gitEnv strayOptions strayDirectory)) \<and>
   git_checkIsRepo gitEnv ''/data/prj_1'' strayDirectory = Inr False \<and>
   git_checkIsRepo gitEnv ''/data/prj_1'' (snd (cloneRepository gitEnv strayOptions strayDirectory)) = Inr True \<and>
   files (snd (cloneRepository gitEnv strayOptions strayDirectory)) ''/data/prj_1/notes.txt'' = None \<and>
   \<not> clone_success (fst (cloneRepository lockedEnv strayOptions strayDirectory)) \<and>
   clone_message (fst (cloneRepository lockedEnv strayOptions strayDirectory)) =
     ''Failed to prepare directory for cloning: EPERM: operation not permitted''"
proof -
  have d: "projectDir strayOptions = ''/data/prj_1''" by code_simp
  have h: "existsSync (storagePath strayOptions) strayDirectory \<and>
           existsSync (projectDir strayOptions) strayDirectory \<and>
           git_checkIsRepo gitEnv (projectDir strayOptions) strayDirectory \<noteq> Inr True"
    by code_simp
  have ok: "clone_success (fst (cloneRepository gitEnv strayOptions strayDirectory))" by code_simp
  have contract: "\<forall>w3 w4. git_clone gitEnv (cleanRepoUrl (repoUrl strayOptions)) (projectDir strayOptions)
                       (truthy_str (branch strayOptions)) w3 = (None, w4) \<longrightarrow>
                     git_checkIsRepo gitEnv (projectDir strayOptions) w4 = Inr True"
    by (auto simp: gitEnv_def quietEnv_def)
  from non_repository_directory_is_replaced[of strayOptions strayDirectory gitEnv] h ok contract
  have a: "git_checkIsRepo gitEnv (projectDir strayOptions) (snd (cloneRepository gitEnv strayOptions strayDirectory)) = Inr True"
    by blast
  have b: "git_checkIsRepo gitEnv ''/data/prj_1'' strayDirectory = Inr False" by code_simp
  have c: "files (snd (cloneRepository gitEnv strayOptions strayDirectory)) ''/data/prj_1/notes.txt'' = None"
    by code_simp
  have e: "\<not> clone_success (fst (cloneRepository lockedEnv strayOptions strayDirectory))" by code_simp
  have f: "clone_message (fst (cloneRepository lockedEnv strayOptions strayDirectory)) =
     ''Failed to prepare directory for cloning: EPERM: operation not permitted''" by code_simp
  show ?thesis using ok a b c e f unfolding d by simp
qed


end
